theory Spec2Isabelle
  imports Complex_Main "HOL-Library.AList"
begin

section \<open>File system, as the two transfer tools see it\<close>

text \<open>
  Both tools (\<^verbatim>\<open>absolutelyfreesync.py\<close>, the batch copier, and
  \<^verbatim>\<open>speed_adjustable_copy.py\<close>, the throttled single-file copier) act on the
  file system through \<^verbatim>\<open>os\<close>, \<^verbatim>\<open>shutil\<close> and \<^verbatim>\<open>open\<close>.
  A path is the list of its components below the root, file contents are byte strings
  (\<^typ>\<open>char\<close> is a byte), and a directory lists its entries in the order in which
  \<^verbatim>\<open>os.scandir\<close> reports them. Symbolic links and permissions are not modelled;
  failures they would cause are injected through the environment record below.
\<close>

type_synonym bytes = string
type_synonym path = "string list"

datatype node = File bytes | Dir "(string \<times> node) list"

datatype exn =
    FileNotFoundError | FileExistsError | NotADirectoryError
  | IsADirectoryError | SameFileError | ZeroDivisionError | OSError

fun lookup :: "node \<Rightarrow> path \<Rightarrow> node option" where
  "lookup n [] = Some n"
| "lookup (File b) (c # cs) = None"
| "lookup (Dir es) (c # cs) =
     (case map_of es c of None \<Rightarrow> None | Some ch \<Rightarrow> lookup ch cs)"

text \<open>\<^verbatim>\<open>os.path.exists\<close>.\<close>

definition path_exists :: "node \<Rightarrow> path \<Rightarrow> bool" where
  "path_exists fsys p = (lookup fsys p \<noteq> None)"

text \<open>\<^verbatim>\<open>os.makedirs(p, exist_ok=True)\<close>: missing components are created, an existing
  directory is accepted, a regular file in the way raises.\<close>

fun makedirs :: "node \<Rightarrow> path \<Rightarrow> exn + node" where
  "makedirs (File b) [] = Inl FileExistsError"
| "makedirs (File b) (c # cs) = Inl NotADirectoryError"
| "makedirs (Dir es) [] = Inr (Dir es)"
| "makedirs (Dir es) (c # cs) =
     (case map_of es c of
        None \<Rightarrow> (case makedirs (Dir []) cs of
                   Inl e \<Rightarrow> Inl e
                 | Inr ch \<Rightarrow> Inr (Dir (es @ [(c, ch)])))
      | Some ch \<Rightarrow> (case makedirs ch cs of
                   Inl e \<Rightarrow> Inl e
                 | Inr ch' \<Rightarrow> Inr (Dir (AList.update c ch' es))))"

text \<open>Creating or overwriting the regular file at a path (\<^verbatim>\<open>open(p, 'wb')\<close> followed by
  writes): the parent must be an existing directory and the path itself no directory.\<close>

fun put_file :: "node \<Rightarrow> path \<Rightarrow> bytes \<Rightarrow> exn + node" where
  "put_file n [] b = Inl IsADirectoryError"
| "put_file (File x) (c # cs) b = Inl NotADirectoryError"
| "put_file (Dir es) [c] b =
     (case map_of es c of
        Some (Dir ds) \<Rightarrow> Inl IsADirectoryError
      | _ \<Rightarrow> Inr (Dir (AList.update c (File b) es)))"
| "put_file (Dir es) (c # d # cs) b =
     (case map_of es c of
        None \<Rightarrow> Inl FileNotFoundError
      | Some ch \<Rightarrow> (case put_file ch (d # cs) b of
                   Inl e \<Rightarrow> Inl e
                 | Inr ch' \<Rightarrow> Inr (Dir (AList.update c ch' es))))"

text \<open>\<^verbatim>\<open>os.remove\<close>: only a regular file can be removed.\<close>

fun delete_entry :: "node \<Rightarrow> path \<Rightarrow> node" where
  "delete_entry (Dir es) [c] = Dir (AList.delete c es)"
| "delete_entry (Dir es) (c # d # cs) =
     (case map_of es c of
        None \<Rightarrow> Dir es
      | Some ch \<Rightarrow> Dir (AList.update c (delete_entry ch (d # cs)) es))"
| "delete_entry n p = n"

definition remove_file :: "node \<Rightarrow> path \<Rightarrow> exn + node" where
  "remove_file fsys p =
     (if p = [] then Inl IsADirectoryError
      else case lookup fsys p of
             None \<Rightarrow> Inl FileNotFoundError
           | Some (Dir ds) \<Rightarrow> Inl IsADirectoryError
           | Some (File b) \<Rightarrow> Inr (delete_entry fsys p))"

text \<open>\<^verbatim>\<open>[os.path.join(dp, f) for dp, dn, fn in os.walk(top) for f in fn]\<close>: the walk is
  top-down, so the files of a directory come before those of its subdirectories; a top that
  is no directory yields nothing.\<close>

fun walk_files :: "path \<Rightarrow> node \<Rightarrow> path list" where
  "walk_files dp (File b) = []"
| "walk_files dp (Dir es) =
     map (\<lambda>e. dp @ [fst e]) (filter (\<lambda>e. case snd e of File b \<Rightarrow> True | Dir ds \<Rightarrow> False) es)
     @ concat (map (\<lambda>e. walk_files (dp @ [fst e]) (snd e)) es)"

definition path_str :: "path \<Rightarrow> string" where
  "path_str p = concat (map (\<lambda>c. ''/'' @ c) p)"

section \<open>Environment, worker state and observable actions\<close>

text \<open>
  \<^verbatim>\<open>hashlib.md5()\<close> is a library object; the model takes it as a parameter with the three
  operations the code uses. Its documented contract (feeding two blocks is feeding their
  concatenation) appears as a hypothesis where a claim needs it.
\<close>

record 'h md5_impl =
  md5_new :: 'h
  md5_update :: "'h \<Rightarrow> bytes \<Rightarrow> 'h"
  md5_hexdigest :: "'h \<Rightarrow> string"

datatype read_fault = NoFault | OpenFails | ReadFails nat
datatype copy_fault = CopyExact | CopyWrites bytes | CopyRaises exn

text \<open>
  What the workers do not control: the moment at which the requester thread's
  \<^verbatim>\<open>stop()\<close> lands (\<open>stop_at = Some n\<close>: just before the worker's poll number \<open>n\<close>,
  counted from 0), injected I/O faults per path, the float expression
  \<^verbatim>\<open>int(a / b * 100)\<close>, the text of an exception, and the wall-clock durations of the
  throttled copy (times are exact rationals here, not floats): \<open>gap k\<close> passes before
  the chunk-start reading of iteration \<open>k\<close>, \<open>io_dur k\<close> between the chunk-start and
  chunk-end readings, and \<open>lag k\<close> between the chunk-end reading and the final reading
  of the iteration, in addition to the requested sleep.
\<close>

record env =
  stop_at :: "nat option"
  copy_fault :: "path \<Rightarrow> copy_fault"
  md5_fault :: "path \<Rightarrow> read_fault"
  remove_fault :: "path \<Rightarrow> exn option"
  percent :: "nat \<Rightarrow> nat \<Rightarrow> int"
  exn_str :: "exn \<Rightarrow> string"
  gap :: "nat \<Rightarrow> rat"
  io_dur :: "nat \<Rightarrow> rat"
  lag :: "nat \<Rightarrow> rat"

text \<open>Everything a run does that can be observed from outside, in order: mutex and flag
  accesses, the Qt signals of both workers, and the file-system calls.\<close>

datatype action =
    MutexLock | MutexUnlock | FlagRead bool | FlagWrite bool
  | Operation_progress nat string string
  | Operation_finished nat bool string
  | Overall_progress int
  | MakeDirs path | Copy2 path path | Md5 path string | Remove path
  | Finished | Progress_update int | Speed_update rat
  | Status_message string | Error_occurred string
  | OpenRead path | OpenWrite path | WriteChunk path nat | Sleep rat

record world =
  fs :: node
  is_running :: bool
  polls :: nat
  clock :: rat
  log :: "action list"

definition emit :: "action \<Rightarrow> world \<Rightarrow> world" where
  "emit a s = s\<lparr>log := log s @ [a]\<rparr>"

section \<open>Digest engine: \<^verbatim>\<open>FileOperationWorker._calculate_md5\<close>\<close>

text \<open>\<^verbatim>\<open>afile.read(blocksize)\<close>, the read number \<open>k\<close> of this file: the next block and
  what remains after it, or an exception when the injected fault hits this read.\<close>

definition read_block :: "read_fault \<Rightarrow> nat \<Rightarrow> nat \<Rightarrow> bytes \<Rightarrow> (bytes \<times> bytes) option" where
  "read_block fault k blocksize rest =
     (if fault = ReadFails k then None
      else Some (take blocksize rest, drop blocksize rest))"

text \<open>\<^verbatim>\<open>open(filepath, 'rb')\<close>.\<close>

definition open_rb :: "read_fault \<Rightarrow> node \<Rightarrow> path \<Rightarrow> bytes option" where
  "open_rb fault fsys filepath =
     (if fault = OpenFails then None
      else case lookup fsys filepath of
             Some (File content) \<Rightarrow> Some content
           | _ \<Rightarrow> None)"

text \<open>\<^verbatim>\<open>while len(buf) > 0: hasher.update(buf); buf = afile.read(blocksize)\<close>\<close>

function md5_loop ::
  "'h md5_impl \<Rightarrow> read_fault \<Rightarrow> nat \<Rightarrow> nat \<Rightarrow> 'h \<Rightarrow> bytes \<Rightarrow> bytes \<Rightarrow> 'h option" where
  "md5_loop hs fault blocksize k hasher buf rest =
     (if length buf > 0 then
        (case read_block fault k blocksize rest of
           None \<Rightarrow> None
         | Some (buf', rest') \<Rightarrow>
             md5_loop hs fault blocksize (Suc k) (md5_update hs hasher buf) buf' rest')
      else Some hasher)"
  by pat_completeness auto
termination
  by (relation "measure (\<lambda>(hs, fault, blocksize, k, hasher, buf, rest).
                  length rest + (if buf = [] then 0 else 1))")
     (auto simp: read_block_def split: if_splits)

declare md5_loop.simps [simp del]

definition calculate_md5 :: "'h md5_impl \<Rightarrow> read_fault \<Rightarrow> node \<Rightarrow> path \<Rightarrow> nat \<Rightarrow> string" where
  "calculate_md5 hs fault fsys filepath blocksize =
     (let hasher = md5_new hs in
      case open_rb fault fsys filepath of
        None \<Rightarrow> ''ERROR_HASH''
      | Some content \<Rightarrow>
          (case read_block fault 0 blocksize content of
             None \<Rightarrow> ''ERROR_HASH''
           | Some (buf, rest) \<Rightarrow>
               (case md5_loop hs fault blocksize 1 hasher buf rest of
                  None \<Rightarrow> ''ERROR_HASH''
                | Some h \<Rightarrow> md5_hexdigest hs h)))"

text \<open>\<^verbatim>\<open>hashlib.md5(content).hexdigest()\<close>: hashing the whole content at once.\<close>

definition md5_of :: "'h md5_impl \<Rightarrow> bytes \<Rightarrow> string" where
  "md5_of hs content = md5_hexdigest hs (md5_update hs (md5_new hs) content)"

text \<open>The contract of a streaming hash object.\<close>

definition streaming :: "'h md5_impl \<Rightarrow> bool" where
  "streaming hs \<longleftrightarrow>
     (\<forall>h a b. md5_update hs (md5_update hs h a) b = md5_update hs h (a @ b))
     \<and> (\<forall>h. md5_update hs h [] = h)"

definition lowercase_hex :: "'h md5_impl \<Rightarrow> bool" where
  "lowercase_hex hs \<longleftrightarrow> (\<forall>h. set (md5_hexdigest hs h) \<subseteq> set ''0123456789abcdef'')"

text \<open>The file cannot be opened, or one of the reads that the loop performs raises: the read
  number \<open>k\<close> starts at offset \<open>k * blocksize\<close> and is performed when the previous
  block was not empty.\<close>

definition unreadable :: "read_fault \<Rightarrow> nat \<Rightarrow> bytes \<Rightarrow> bool" where
  "unreadable fault blocksize content \<longleftrightarrow>
     fault = OpenFails
     \<or> (\<exists>k. fault = ReadFails k \<and> k * blocksize < length content + blocksize)"

text \<open>The default \<^verbatim>\<open>blocksize=65536\<close> with which every caller runs the digest.\<close>

definition BLOCKSIZE :: nat where
  "BLOCKSIZE = 65536"

section \<open>Cancellation token\<close>

text \<open>\<^verbatim>\<open>FileOperationWorker.stop\<close>: the flag is cleared between \<^verbatim>\<open>mutex.lock()\<close> and
  \<^verbatim>\<open>mutex.unlock()\<close>.\<close>

definition stop :: "world \<Rightarrow> world" where
  "stop s =
     (let s1 = emit MutexLock s;
          s2 = emit (FlagWrite False) (s1\<lparr>is_running := False\<rparr>)
      in emit MutexUnlock s2)"

text \<open>The requester thread: its \<^verbatim>\<open>stop()\<close> lands just before the poll \<open>stop_at\<close>.\<close>

definition requester :: "env \<Rightarrow> world \<Rightarrow> world" where
  "requester ev s = (if stop_at ev = Some (polls s) then stop s else s)"

text \<open>The worker's poll in \<^verbatim>\<open>run\<close> and \<^verbatim>\<open>_process_directory\<close>:
  \<^verbatim>\<open>mutex.lock(); if not self._is_running: mutex.unlock(); ...; mutex.unlock()\<close>.\<close>

definition poll :: "env \<Rightarrow> world \<Rightarrow> bool \<times> world" where
  "poll ev s =
     (let s0 = requester ev s;
          s1 = emit MutexLock s0;
          running = is_running s1;
          s2 = emit (FlagRead running) s1;
          s3 = emit MutexUnlock s2
      in (running, s3\<lparr>polls := Suc (polls s3)\<rparr>))"

text \<open>\<^verbatim>\<open>FileWorker.stop\<close> and the reads of \<^verbatim>\<open>self._is_running\<close> in the throttled copier:
  there is no mutex in that class.\<close>

definition fw_stop :: "world \<Rightarrow> world" where
  "fw_stop s = emit (FlagWrite False) (s\<lparr>is_running := False\<rparr>)"

definition fw_requester :: "env \<Rightarrow> world \<Rightarrow> world" where
  "fw_requester ev s = (if stop_at ev = Some (polls s) then fw_stop s else s)"

definition fw_poll :: "env \<Rightarrow> world \<Rightarrow> bool \<times> world" where
  "fw_poll ev s =
     (let s0 = fw_requester ev s;
          running = is_running s0;
          s1 = emit (FlagRead running) s0
      in (running, s1\<lparr>polls := Suc (polls s1)\<rparr>))"

section \<open>Library calls with their effect on the world\<close>

definition basename :: "path \<Rightarrow> string" where
  "basename p = (case rev p of [] \<Rightarrow> [] | c # cs \<Rightarrow> c)"

definition dirname :: "path \<Rightarrow> path" where
  "dirname p = butlast p"

definition os_makedirs :: "path \<Rightarrow> world \<Rightarrow> exn option \<times> world" where
  "os_makedirs p s =
     (let s1 = emit (MakeDirs p) s
      in case makedirs (fs s1) p of
           Inl e \<Rightarrow> (Some e, s1)
         | Inr t \<Rightarrow> (None, s1\<lparr>fs := t\<rparr>))"

text \<open>\<^verbatim>\<open>shutil.copy2(src, dst)\<close>: a destination that is a directory receives the file under
  the source's base name; the injected fault decides whether the bytes written are the
  source's, other bytes (a silent corruption), or whether the copy raises.\<close>

definition copy2 :: "env \<Rightarrow> path \<Rightarrow> path \<Rightarrow> world \<Rightarrow> exn option \<times> world" where
  "copy2 ev src dst s =
     (let s1 = emit (Copy2 src dst) s
      in case lookup (fs s1) src of
           None \<Rightarrow> (Some FileNotFoundError, s1)
         | Some (Dir ds) \<Rightarrow> (Some IsADirectoryError, s1)
         | Some (File content) \<Rightarrow>
            (let target = (case lookup (fs s1) dst of
                             Some (Dir ds) \<Rightarrow> dst @ [basename src]
                           | _ \<Rightarrow> dst)
             in if target = src then (Some SameFileError, s1)
                else case copy_fault ev src of
                       CopyRaises e \<Rightarrow> (Some e, s1)
                     | CopyExact \<Rightarrow>
                         (case put_file (fs s1) target content of
                            Inl e \<Rightarrow> (Some e, s1)
                          | Inr t \<Rightarrow> (None, s1\<lparr>fs := t\<rparr>))
                     | CopyWrites b \<Rightarrow>
                         (case put_file (fs s1) target b of
                            Inl e \<Rightarrow> (Some e, s1)
                          | Inr t \<Rightarrow> (None, s1\<lparr>fs := t\<rparr>))))"

definition os_remove :: "env \<Rightarrow> path \<Rightarrow> world \<Rightarrow> exn option \<times> world" where
  "os_remove ev p s =
     (let s1 = emit (Remove p) s
      in case remove_fault ev p of
           Some e \<Rightarrow> (Some e, s1)
         | None \<Rightarrow>
             (case remove_file (fs s1) p of
                Inl e \<Rightarrow> (Some e, s1)
              | Inr t \<Rightarrow> (None, s1\<lparr>fs := t\<rparr>)))"

text \<open>A call of \<^verbatim>\<open>self._calculate_md5(filepath)\<close>, recorded with its result.\<close>

definition md5_call :: "'h md5_impl \<Rightarrow> env \<Rightarrow> path \<Rightarrow> world \<Rightarrow> string \<times> world" where
  "md5_call hs ev filepath s =
     (let d = calculate_md5 hs (md5_fault ev filepath) (fs s) filepath BLOCKSIZE
      in (d, emit (Md5 filepath d) s))"

section \<open>Transfer worker: \<^verbatim>\<open>FileOperationWorker._process_directory\<close> and \<^verbatim>\<open>run\<close>\<close>

text \<open>A task dictionary with its keys \<^verbatim>\<open>'source'\<close>, \<^verbatim>\<open>'destination'\<close> and \<^verbatim>\<open>'mode'\<close>.\<close>

record task =
  task_source :: path
  task_destination :: path
  task_mode :: string

text \<open>How one iteration of the file loop ends: the loop goes on, the function returns,
  or an exception leaves it.\<close>

datatype flow = Next | Return | Raise exn

text \<open>Steps 2 and 3 of the loop body: the MD5 verification and the deletion of the source.\<close>

definition verify_file ::
  "'h md5_impl \<Rightarrow> env \<Rightarrow> nat \<Rightarrow> string \<Rightarrow> nat \<Rightarrow> nat \<Rightarrow> path \<Rightarrow> path \<Rightarrow> string \<Rightarrow> world
     \<Rightarrow> flow \<times> world" where
  "verify_file hs ev task_index mode total_files file_idx src_filepath dst_filepath filename s =
     (let s1 = emit (Operation_progress task_index filename ''Verifying MD5...'') s;
          (src_md5, s2) = md5_call hs ev src_filepath s1;
          (dst_md5, s3) = md5_call hs ev dst_filepath s2
      in if src_md5 \<noteq> dst_md5 then
           (Return, emit (Operation_finished task_index False
                            (''MD5 Mismatch for '' @ filename @ ''. Copy failed.'')) s3)
         else
           (case (if mode = ''verify_and_delete'' then
                    os_remove ev src_filepath
                      (emit (Operation_progress task_index filename ''Deleting Source...'') s3)
                  else (None, s3)) of
              (Some e, s4) \<Rightarrow> (Raise e, s4)
            | (None, s4) \<Rightarrow>
                (Next, emit (Overall_progress (percent ev (file_idx + 1) total_files)) s4)))"

text \<open>One iteration of \<^verbatim>\<open>for file_idx, src_filepath in enumerate(all_files)\<close>.\<close>

definition process_file ::
  "'h md5_impl \<Rightarrow> env \<Rightarrow> nat \<Rightarrow> path \<Rightarrow> path \<Rightarrow> string \<Rightarrow> nat \<Rightarrow> nat \<Rightarrow> path \<Rightarrow> world
     \<Rightarrow> flow \<times> world" where
  "process_file hs ev task_index src_dir dst_dir mode total_files file_idx src_filepath s =
     (let (running, s1) = poll ev s
      in if \<not> running then (Return, s1)
         else
           (let rel_path = drop (length src_dir) src_filepath;
                dst_filepath = dst_dir @ rel_path
            in case os_makedirs (dirname dst_filepath) s1 of
                 (Some e, s2) \<Rightarrow> (Raise e, s2)
               | (None, s2) \<Rightarrow>
                   (let filename = basename src_filepath;
                        s3 = emit (Operation_progress task_index filename ''Copying...'') s2
                    in case copy2 ev src_filepath dst_filepath s3 of
                         (Some e, s4) \<Rightarrow> (Raise e, s4)
                       | (None, s4) \<Rightarrow>
                           verify_file hs ev task_index mode total_files file_idx
                             src_filepath dst_filepath filename s4)))"

fun process_files ::
  "'h md5_impl \<Rightarrow> env \<Rightarrow> nat \<Rightarrow> path \<Rightarrow> path \<Rightarrow> string \<Rightarrow> nat \<Rightarrow> nat \<Rightarrow> path list \<Rightarrow> world
     \<Rightarrow> flow \<times> world" where
  "process_files hs ev task_index src_dir dst_dir mode total_files file_idx [] s = (Next, s)"
| "process_files hs ev task_index src_dir dst_dir mode total_files file_idx (f # rest) s =
     (case process_file hs ev task_index src_dir dst_dir mode total_files file_idx f s of
        (Next, s') \<Rightarrow>
          process_files hs ev task_index src_dir dst_dir mode total_files (Suc file_idx) rest s'
      | (Return, s') \<Rightarrow> (Return, s')
      | (Raise e, s') \<Rightarrow> (Raise e, s'))"

definition process_directory ::
  "'h md5_impl \<Rightarrow> env \<Rightarrow> nat \<Rightarrow> path \<Rightarrow> path \<Rightarrow> string \<Rightarrow> world \<Rightarrow> exn option \<times> world" where
  "process_directory hs ev task_index src_dir dst_dir mode s =
     (if \<not> path_exists (fs s) src_dir then
        (None, emit (Operation_finished task_index False
                       (''Source directory not found: '' @ path_str src_dir)) s)
      else
        case os_makedirs dst_dir s of
          (Some e, s1) \<Rightarrow> (Some e, s1)
        | (None, s1) \<Rightarrow>
            (let all_files = (case lookup (fs s1) src_dir of
                                None \<Rightarrow> []
                              | Some n \<Rightarrow> walk_files src_dir n);
                 total_files = length all_files
             in if total_files = 0 then
                  (None, emit (Operation_finished task_index True
                                 ''Source directory is empty. Operation successful.'') s1)
                else
                  case process_files hs ev task_index src_dir dst_dir mode total_files 0
                         all_files s1 of
                    (Next, s2) \<Rightarrow>
                      (None, emit (Operation_finished task_index True
                                     (''Operation **'' @ mode @ ''** successful.'')) s2)
                  | (Return, s2) \<Rightarrow> (None, s2)
                  | (Raise e, s2) \<Rightarrow> (Some e, s2)))"

text \<open>\<^verbatim>\<open>for i, task in enumerate(self.task_list)\<close> of \<^verbatim>\<open>run\<close>.\<close>

fun run_tasks :: "'h md5_impl \<Rightarrow> env \<Rightarrow> nat \<Rightarrow> task list \<Rightarrow> world \<Rightarrow> world" where
  "run_tasks hs ev i [] s = s"
| "run_tasks hs ev i (t # rest) s =
     (let (running, s1) = poll ev s
      in if \<not> running then s1
         else
           (let s2 = emit (Overall_progress 0) s1;
                s3 = (if task_mode t \<in> set [''verify_and_delete'', ''copy''] then
                        (case process_directory hs ev i (task_source t) (task_destination t)
                                (task_mode t) s2 of
                           (None, s') \<Rightarrow> s'
                         | (Some e, s') \<Rightarrow>
                             emit (Operation_finished i False
                                     (''Critical Error: '' @ exn_str ev e)) s')
                      else emit (Operation_finished i False (''Unknown mode: '' @ task_mode t)) s2)
            in run_tasks hs ev (Suc i) rest s3))"

definition run :: "'h md5_impl \<Rightarrow> env \<Rightarrow> task list \<Rightarrow> world \<Rightarrow> world" where
  "run hs ev task_list s = emit (Overall_progress 100) (run_tasks hs ev 0 task_list s)"

section \<open>Session scheduler: \<^verbatim>\<open>FileCopierApp._handle_task_completion\<close>\<close>

text \<open>The slot runs in the GUI thread. On a failed task it calls \<^verbatim>\<open>_stop_operations\<close>,
  which asks the user to confirm and calls the worker's \<^verbatim>\<open>stop()\<close> only on
  \<^verbatim>\<open>Yes\<close>. The widget updates are left out.\<close>

datatype reply = Yes | No

definition stop_operations :: "bool \<Rightarrow> reply \<Rightarrow> world \<Rightarrow> world" where
  "stop_operations thread_running answer s =
     (if thread_running then (if answer = Yes then stop s else s) else s)"

definition handle_task_completion ::
  "nat \<Rightarrow> bool \<Rightarrow> reply \<Rightarrow> int \<Rightarrow> bool \<Rightarrow> world \<Rightarrow> world" where
  "handle_task_completion n_tasks thread_running answer task_index success s =
     (if task_index < 0 \<or> task_index \<ge> int n_tasks then s
      else if success then s
      else stop_operations thread_running answer s)"

section \<open>Rate limiter and throttled copy: \<^verbatim>\<open>FileWorker\<close>\<close>

definition CHUNK_SIZE :: nat where
  "CHUNK_SIZE = 1024 * 1024"

definition MAX_SPEED_MBPS :: int where
  "MAX_SPEED_MBPS = 500"

definition MAX_SPEED_BPS :: int where
  "MAX_SPEED_BPS = MAX_SPEED_MBPS * 1024 * 1024"

record file_worker =
  src_path :: path
  dest_path :: path
  operation :: string
  speed_limit_mbps :: int

text \<open>The limit in bytes per second that the pacing divides by.\<close>

definition effective_limit :: "int \<Rightarrow> int" where
  "effective_limit mbps =
     (let speed_limit_bps = mbps * 1024 * 1024
      in if speed_limit_bps \<le> 0 then MAX_SPEED_BPS * 2 else speed_limit_bps)"

text \<open>The speed throttling logic after a chunk has been written, from the chunk-end
  reading of the clock to the emitted speed sample. \<^verbatim>\<open>time.sleep(delay)\<close> lets at least
  \<open>delay\<close> pass.\<close>

definition throttle ::
  "env \<Rightarrow> int \<Rightarrow> rat \<Rightarrow> nat \<Rightarrow> nat \<Rightarrow> nat \<Rightarrow> rat \<Rightarrow> world \<Rightarrow> world" where
  "throttle ev speed_limit_bps start_time k chunk_len bytes_copied chunk_start_time s =
     (let chunk_end_time = clock s;
          actual_write_time = chunk_end_time - chunk_start_time;
          target_time_needed = of_nat chunk_len / of_int speed_limit_bps;
          delay = target_time_needed - actual_write_time;
          s1 = (if delay > 0 then (emit (Sleep delay) s)\<lparr>clock := clock s + delay\<rparr> else s);
          s2 = s1\<lparr>clock := clock s1 + lag ev k\<rparr>;
          elapsed_time = clock s2 - start_time;
          current_speed_bps =
            (if elapsed_time > 0 then of_nat bytes_copied / elapsed_time else 0);
          current_speed_mbps = current_speed_bps / (1024 * 1024)
      in emit (Speed_update current_speed_mbps) s2)"

text \<open>\<^verbatim>\<open>fdst.write(chunk)\<close> on the open destination.\<close>

definition write_chunk :: "path \<Rightarrow> bytes \<Rightarrow> world \<Rightarrow> world" where
  "write_chunk dest chunk s =
     (let s1 = emit (WriteChunk dest (length chunk)) s
      in case lookup (fs s1) dest of
           Some (File c) \<Rightarrow>
             (case put_file (fs s1) dest (c @ chunk) of
                Inl e \<Rightarrow> s1
              | Inr t \<Rightarrow> s1\<lparr>fs := t\<rparr>)
         | _ \<Rightarrow> s1)"

text \<open>\<^verbatim>\<open>while self._is_running:\<close> with \<open>rest\<close> the bytes of the source not yet read and
  \<open>k\<close> the number of the iteration.\<close>

function chunk_loop ::
  "env \<Rightarrow> path \<Rightarrow> nat \<Rightarrow> int \<Rightarrow> rat \<Rightarrow> nat \<Rightarrow> nat \<Rightarrow> nat \<Rightarrow> bytes \<Rightarrow> world
     \<Rightarrow> exn option \<times> world" where
  "chunk_loop ev dest chunk_size speed_limit_bps start_time file_size k bytes_copied rest s =
     (let (running, s1) = fw_poll ev s
      in if \<not> running then (None, s1)
         else
           (let s2 = s1\<lparr>clock := clock s1 + gap ev k\<rparr>;
                chunk_start_time = clock s2;
                chunk = take chunk_size rest
            in if chunk = [] then (None, s2)
               else
                 (let s3 = write_chunk dest chunk s2;
                      bytes_copied' = bytes_copied + length chunk
                  in if file_size = 0 then (Some ZeroDivisionError, s3)
                     else
                       (let s4 = emit (Progress_update (percent ev bytes_copied' file_size)) s3;
                            s5 = s4\<lparr>clock := clock s4 + io_dur ev k\<rparr>;
                            s6 = throttle ev speed_limit_bps start_time k (length chunk)
                                   bytes_copied' chunk_start_time s5
                        in chunk_loop ev dest chunk_size speed_limit_bps start_time file_size
                             (Suc k) bytes_copied' (drop chunk_size rest) s6))))"
  by pat_completeness auto
termination
  by (relation "measure (\<lambda>(ev, dest, chunk_size, speed_limit_bps, start_time, file_size, k,
                           bytes_copied, rest, s). length rest)")
     (auto simp: take_eq_Nil)

declare chunk_loop.simps [simp del]

text \<open>What follows the two \<^verbatim>\<open>with open(...)\<close> lines of \<^verbatim>\<open>_execute_file_operation\<close>, for
  any chunk size; \<open>src_data\<close> is what the source holds once the destination has been
  opened for writing.\<close>

definition copy_and_finish ::
  "env \<Rightarrow> file_worker \<Rightarrow> nat \<Rightarrow> int \<Rightarrow> rat \<Rightarrow> nat \<Rightarrow> bytes \<Rightarrow> world \<Rightarrow> exn option \<times> world" where
  "copy_and_finish ev w chunk_size speed_limit_bps start_time file_size src_data s =
     (case chunk_loop ev (dest_path w) chunk_size speed_limit_bps start_time file_size 0 0
             src_data s of
        (Some e, s1) \<Rightarrow> (Some e, s1)
      | (None, s1) \<Rightarrow>
          (let (running, s2) = fw_poll ev s1
           in if \<not> running then
                (case os_remove ev (dest_path w) s2 of
                   (Some e, s3) \<Rightarrow> (Some e, s3)
                 | (None, s3) \<Rightarrow>
                     (None, emit (Status_message
                                    ''Operation cancelled. Partial file removed.'') s3))
              else if operation w = ''move'' then
                (case os_remove ev (src_path w) s2 of
                   (Some e, s3) \<Rightarrow> (Some e, s3)
                 | (None, s3) \<Rightarrow>
                     (None, emit (Status_message
                                    ''Source file deleted (Move operation complete).'') s3))
              else (None, s2)))"

definition execute_file_operation_with ::
  "nat \<Rightarrow> env \<Rightarrow> file_worker \<Rightarrow> world \<Rightarrow> exn option \<times> world" where
  "execute_file_operation_with chunk_size ev w s =
     (case lookup (fs s) (src_path w) of
        None \<Rightarrow> (Some FileNotFoundError, s)
      | Some (Dir ds) \<Rightarrow> (Some IsADirectoryError, emit (OpenRead (src_path w)) s)
      | Some (File content) \<Rightarrow>
          (let file_size = length content;
               speed_limit_bps = effective_limit (speed_limit_mbps w);
               start_time = clock s;
               s1 = emit (OpenRead (src_path w)) s;
               s2 = emit (OpenWrite (dest_path w)) s1
           in case put_file (fs s2) (dest_path w) [] of
                Inl e \<Rightarrow> (Some e, s2)
              | Inr t \<Rightarrow>
                  (let s3 = s2\<lparr>fs := t\<rparr>;
                       src_data = (case lookup (fs s3) (src_path w) of
                                     Some (File c) \<Rightarrow> c
                                   | _ \<Rightarrow> [])
                   in copy_and_finish ev w chunk_size speed_limit_bps start_time file_size
                        src_data s3)))"

text \<open>\<^verbatim>\<open>FileWorker._execute_file_operation\<close> reads in chunks of \<^verbatim>\<open>CHUNK_SIZE\<close>.\<close>

definition execute_file_operation :: "env \<Rightarrow> file_worker \<Rightarrow> world \<Rightarrow> exn option \<times> world" where
  "execute_file_operation = execute_file_operation_with CHUNK_SIZE"

text \<open>\<^verbatim>\<open>str.capitalize\<close> on ASCII text.\<close>

definition upper_char :: "char \<Rightarrow> char" where
  "upper_char c = (let n = (of_char c :: nat) in if 97 \<le> n \<and> n \<le> 122 then char_of (n - 32) else c)"

definition lower_char :: "char \<Rightarrow> char" where
  "lower_char c = (let n = (of_char c :: nat) in if 65 \<le> n \<and> n \<le> 90 then char_of (n + 32) else c)"

definition capitalize :: "string \<Rightarrow> string" where
  "capitalize t = (case t of [] \<Rightarrow> [] | c # cs \<Rightarrow> upper_char c # map lower_char cs)"

text \<open>\<^verbatim>\<open>FileWorker.run\<close>.\<close>

definition fw_run :: "env \<Rightarrow> file_worker \<Rightarrow> world \<Rightarrow> world" where
  "fw_run ev w s =
     (let (running, s1) = fw_poll ev s
      in if \<not> running then emit Finished s1
         else
           (let s2 = emit (Status_message (''Starting '' @ operation w @ '' operation...'')) s1;
                s3 = (case execute_file_operation ev w s2 of
                        (None, s') \<Rightarrow>
                          emit (Status_message (''Operation complete: ''
                                  @ capitalize (operation w) @ '' successful.'')) s'
                      | (Some e, s') \<Rightarrow>
                          emit (Error_occurred (''Error during '' @ operation w @ '': ''
                                  @ exn_str ev e)) s')
            in emit Finished s3))"

section \<open>Properties of a run, read off its actions\<close>

text \<open>Lock discipline: every access to the flag happens while the mutex is held.\<close>

fun held_after :: "bool \<Rightarrow> action list \<Rightarrow> bool" where
  "held_after held [] = held"
| "held_after held (MutexLock # as) = held_after True as"
| "held_after held (MutexUnlock # as) = held_after False as"
| "held_after held (a # as) = held_after held as"

fun under_lock :: "bool \<Rightarrow> action list \<Rightarrow> bool" where
  "under_lock held [] = True"
| "under_lock held (MutexLock # as) = under_lock True as"
| "under_lock held (MutexUnlock # as) = under_lock False as"
| "under_lock held (FlagRead b # as) = (held \<and> under_lock held as)"
| "under_lock held (FlagWrite b # as) = (held \<and> under_lock held as)"
| "under_lock held (a # as) = under_lock held as"

definition flag_only_under_lock :: "action list \<Rightarrow> bool" where
  "flag_only_under_lock l = under_lock False l"

text \<open>Deletion guard. \<open>matched p hist\<close>: the history (latest action first) holds a digest
  of \<open>p\<close> directly followed by a digest of some \<open>q\<close> with the same result, and before
  both a copy of \<open>p\<close> to \<open>q\<close>. \<open>removals_guarded\<close>: every \<^verbatim>\<open>os.remove\<close> of the run
  comes after such a match for the removed path.\<close>

fun matched :: "path \<Rightarrow> action list \<Rightarrow> bool" where
  "matched p [] = False"
| "matched p (a # hist) =
     ((case (a, hist) of
         (Md5 q h', Md5 p' h # older) \<Rightarrow> p' = p \<and> h' = h \<and> Copy2 p q \<in> set older
       | _ \<Rightarrow> False)
      \<or> matched p hist)"

fun removals_guarded :: "action list \<Rightarrow> action list \<Rightarrow> bool" where
  "removals_guarded hist [] = True"
| "removals_guarded hist (a # as) =
     ((case a of Remove p \<Rightarrow> matched p hist | _ \<Rightarrow> True) \<and> removals_guarded (a # hist) as)"

definition deleted_only_after_match :: "action list \<Rightarrow> bool" where
  "deleted_only_after_match l = removals_guarded [] l"

text \<open>Verified copies: every \<^verbatim>\<open>shutil.copy2\<close> of the actions is followed, later on, by a
  digest of its source directly followed by a digest of its destination with the same
  result.\<close>

fun is_copy :: "action \<Rightarrow> bool" where
  "is_copy (Copy2 p q) = True"
| "is_copy a = False"

fun digest_pair :: "path \<Rightarrow> path \<Rightarrow> action \<Rightarrow> action \<Rightarrow> bool" where
  "digest_pair p q (Md5 p' h) (Md5 q' h') = (p' = p \<and> q' = q \<and> h = h')"
| "digest_pair p q a b = False"

fun verified_copy :: "path \<Rightarrow> path \<Rightarrow> action list \<Rightarrow> bool" where
  "verified_copy p q [] = False"
| "verified_copy p q [a] = False"
| "verified_copy p q (a # b # as) = (digest_pair p q a b \<or> verified_copy p q (b # as))"

fun copy_ok :: "action \<Rightarrow> action list \<Rightarrow> bool" where
  "copy_ok (Copy2 p q) as = verified_copy p q as"
| "copy_ok a as = True"

fun copies_verified :: "action list \<Rightarrow> bool" where
  "copies_verified [] = True"
| "copies_verified (a # as) = (copy_ok a as \<and> copies_verified as)"

text \<open>Kinds of actions: what touches the mutex or the flag, what removes a file, and the
  three signals of the batch worker.\<close>

fun is_sync :: "action \<Rightarrow> bool" where
  "is_sync MutexLock = True"
| "is_sync MutexUnlock = True"
| "is_sync (FlagRead b) = True"
| "is_sync (FlagWrite b) = True"
| "is_sync a = False"

fun is_remove :: "action \<Rightarrow> bool" where
  "is_remove (Remove p) = True"
| "is_remove a = False"

fun is_signal :: "action \<Rightarrow> bool" where
  "is_signal (Operation_progress i f m) = True"
| "is_signal (Operation_finished i ok m) = True"
| "is_signal (Overall_progress n) = True"
| "is_signal a = False"

text \<open>The flag was only touched under the lock, and the lock is free again.\<close>

definition disciplined :: "action list \<Rightarrow> bool" where
  "disciplined l \<longleftrightarrow> under_lock False l \<and> \<not> held_after False l"

section \<open>Concrete inputs\<close>

text \<open>A small streaming checksum standing in for MD5 where a run is evaluated: the sum of
  the bytes, printed as two lowercase hex digits.\<close>

definition hexdigit :: "nat \<Rightarrow> char" where
  "hexdigit n = ''0123456789abcdef'' ! (n mod 16)"

definition checksum8 :: "nat md5_impl" where
  "checksum8 =
     \<lparr>md5_new = 0,
      md5_update = (\<lambda>h b. h + sum_list (map of_char b)),
      md5_hexdigest = (\<lambda>h. [hexdigit (h div 16), hexdigit h])\<rparr>"

text \<open>An environment without faults in which nobody calls \<^verbatim>\<open>stop()\<close>, and the state of
  a freshly constructed worker (\<^verbatim>\<open>self._is_running = True\<close>).\<close>

definition quiet :: env where
  "quiet =
     \<lparr>stop_at = None,
      copy_fault = (\<lambda>p. CopyExact),
      md5_fault = (\<lambda>p. NoFault),
      remove_fault = (\<lambda>p. None),
      percent = (\<lambda>a b. int (a * 100 div b)),
      exn_str = (\<lambda>e. ''error''),
      gap = (\<lambda>k. 0),
      io_dur = (\<lambda>k. 0),
      lag = (\<lambda>k. 0)\<rparr>"

definition boot :: "node \<Rightarrow> world" where
  "boot fsys = \<lparr>fs = fsys, is_running = True, polls = 0, clock = 0, log = []\<rparr>"

text \<open>A source directory \<^verbatim>\<open>/src\<close> with two files.\<close>

definition two_files :: node where
  "two_files = Dir [(''src'', Dir [(''a'', File ''hi''), (''b'', File ''yo'')])]"

text \<open>A source directory with one file, and a tree in which the copy of that file differs
  from it.\<close>

definition one_file :: node where
  "one_file = Dir [(''src'', Dir [(''a'', File ''hi'')])]"

definition corrupted_copy :: node where
  "corrupted_copy =
     Dir [(''src'', Dir [(''a'', File ''hi'')]), (''dst'', Dir [(''a'', File ''hX'')])]"

section \<open>The digest engine is a streaming hash with a failure sentinel\<close>

lemma md5_loop_nofault:
  "streaming hs \<Longrightarrow> 0 < blocksize \<Longrightarrow> (buf = [] \<longrightarrow> rest = []) \<Longrightarrow>
     md5_loop hs NoFault blocksize k h buf rest = Some (md5_update hs h (buf @ rest))"
proof (induction hs "NoFault" blocksize k h buf rest rule: md5_loop.induct)
  case (1 hs blocksize k hasher buf rest)
  have upd0: "md5_update hs hasher [] = hasher"
    using 1(2) by (simp add: streaming_def)
  show ?case
  proof (cases "buf = []")
    case True
    with 1(4) upd0 show ?thesis by (subst md5_loop.simps) simp
  next
    case False
    have rb: "read_block NoFault k blocksize rest = Some (take blocksize rest, drop blocksize rest)"
      by (simp add: read_block_def)
    have pre: "take blocksize rest = [] \<longrightarrow> drop blocksize rest = []"
      using 1(3) by (cases rest) auto
    from False have "0 < length buf" by simp
    from 1(1)[OF this rb refl 1(2) 1(3) pre]
    have "md5_loop hs NoFault blocksize (Suc k) (md5_update hs hasher buf) (take blocksize rest) (drop blocksize rest)
          = Some (md5_update hs (md5_update hs hasher buf) (take blocksize rest @ drop blocksize rest))" .
    moreover have "md5_update hs (md5_update hs hasher buf) rest = md5_update hs hasher (buf @ rest)"
      using 1(2) by (simp add: streaming_def)
    ultimately show ?thesis using False rb
      by (subst md5_loop.simps) simp
  qed
qed

lemma md5_loop_hit:
  "buf \<noteq> [] \<Longrightarrow> k \<le> j \<Longrightarrow> 0 < blocksize \<Longrightarrow> (j - k) * blocksize < length rest + blocksize \<Longrightarrow>
     md5_loop hs (ReadFails j) blocksize k h buf rest = None"
proof (induction hs "ReadFails j" blocksize k h buf rest rule: md5_loop.induct)
  case (1 hs blocksize k hasher buf rest)
  show ?case
  proof (cases "j = k")
    case True
    with 1(2) show ?thesis by (subst md5_loop.simps) (simp add: read_block_def)
  next
    case False
    with 1(3) have lt: "Suc k \<le> j" by simp
    then obtain m where m: "j - k = Suc m" "j - Suc k = m" by (cases "j - k") auto
    with 1(5) have len: "m * blocksize < length rest" by simp
    have rb: "read_block (ReadFails j) k blocksize rest = Some (take blocksize rest, drop blocksize rest)"
      using False by (simp add: read_block_def)
    have ne: "take blocksize rest \<noteq> []"
      using len 1(4) by (cases rest) auto
    have len': "(j - Suc k) * blocksize < length (drop blocksize rest) + blocksize"
      using len m by simp
    from 1(2) have "0 < length buf" by simp
    from 1(1)[OF this rb refl ne lt 1(4) len']
    show ?thesis using 1(2) rb by (subst md5_loop.simps) simp
  qed
qed

lemma md5_loop_miss:
  "streaming hs \<Longrightarrow> 0 < blocksize \<Longrightarrow> (buf = [] \<longrightarrow> rest = []) \<Longrightarrow>
   (buf \<noteq> [] \<longrightarrow> j < k \<or> length rest + blocksize \<le> (j - k) * blocksize) \<Longrightarrow>
     md5_loop hs (ReadFails j) blocksize k h buf rest = Some (md5_update hs h (buf @ rest))"
proof (induction hs "ReadFails j" blocksize k h buf rest rule: md5_loop.induct)
  case (1 hs blocksize k hasher buf rest)
  have upd0: "md5_update hs hasher [] = hasher"
    using 1(2) by (simp add: streaming_def)
  show ?case
  proof (cases "buf = []")
    case True
    with 1(4) upd0 show ?thesis by (subst md5_loop.simps) simp
  next
    case False
    with 1(5) have far: "j < k \<or> length rest + blocksize \<le> (j - k) * blocksize" by simp
    with 1(3) have jk: "j \<noteq> k" by auto
    have rb: "read_block (ReadFails j) k blocksize rest = Some (take blocksize rest, drop blocksize rest)"
      using jk by (simp add: read_block_def)
    have pre: "take blocksize rest = [] \<longrightarrow> drop blocksize rest = []"
      using 1(3) by (cases rest) auto
    have far': "take blocksize rest \<noteq> [] \<longrightarrow>
        j < Suc k \<or> length (drop blocksize rest) + blocksize \<le> (j - Suc k) * blocksize"
    proof
      assume ne: "take blocksize rest \<noteq> []"
      then have rne: "0 < length rest" by (cases rest) auto
      show "j < Suc k \<or> length (drop blocksize rest) + blocksize \<le> (j - Suc k) * blocksize"
      proof (cases "j < k")
        case True
        then show ?thesis by simp
      next
        case False
        with jk have "Suc k \<le> j" by simp
        then obtain m where m: "j - k = Suc m" "j - Suc k = m" by (cases "j - k") auto
        with far False have le: "length rest \<le> m * blocksize" by simp
        with rne have "0 < m" by (cases m) auto
        then have "blocksize \<le> m * blocksize" by (cases m) auto
        with le have "length rest - blocksize + blocksize \<le> m * blocksize" by arith
        with m show ?thesis by simp
      qed
    qed
    from False have "0 < length buf" by simp
    from 1(1)[OF this rb refl 1(2) 1(3) pre far']
    have "md5_loop hs (ReadFails j) blocksize (Suc k) (md5_update hs hasher buf) (take blocksize rest) (drop blocksize rest)
          = Some (md5_update hs (md5_update hs hasher buf) (take blocksize rest @ drop blocksize rest))" .
    moreover have "md5_update hs (md5_update hs hasher buf) rest = md5_update hs hasher (buf @ rest)"
      using 1(2) by (simp add: streaming_def)
    ultimately show ?thesis using False rb
      by (subst md5_loop.simps) simp
  qed
qed

lemma calculate_md5_file:
  assumes "streaming hs" "0 < blocksize" "lookup fsys p = Some (File content)"
  shows "calculate_md5 hs fault fsys p blocksize =
      (if unreadable fault blocksize content then ''ERROR_HASH'' else md5_of hs content)"
proof (cases fault)
  case NoFault
  have "md5_loop hs NoFault blocksize 1 (md5_new hs) (take blocksize content) (drop blocksize content)
         = Some (md5_update hs (md5_new hs) (take blocksize content @ drop blocksize content))"
    using assms(1,2) by (intro md5_loop_nofault) (cases content; auto)+
  with NoFault assms(3) show ?thesis
    by (simp add: calculate_md5_def open_rb_def read_block_def unreadable_def md5_of_def)
next
  case OpenFails
  then show ?thesis by (simp add: calculate_md5_def open_rb_def unreadable_def)
next
  case (ReadFails j)
  show ?thesis
  proof (cases "j = 0")
    case True
    with ReadFails assms(2,3) show ?thesis
      by (simp add: calculate_md5_def open_rb_def read_block_def unreadable_def)
  next
    case False
    then obtain m where m: "j = Suc m" by (cases j) auto
    let ?buf = "take blocksize content" and ?rest = "drop blocksize content"
    have rb: "read_block (ReadFails j) 0 blocksize content = Some (?buf, ?rest)"
      using False by (simp add: read_block_def)
    show ?thesis
    proof (cases "j * blocksize < length content + blocksize")
      case True
      with m have lt: "m * blocksize < length content" by simp
      then have ne: "?buf \<noteq> []" using assms(2) by (cases content) auto
      have "(j - 1) * blocksize < length ?rest + blocksize" using lt m by simp
      with ne m assms(2) have "md5_loop hs (ReadFails j) blocksize 1 (md5_new hs) ?buf ?rest = None"
        by (intro md5_loop_hit) auto
      with True ReadFails assms(3) rb show ?thesis
        by (simp add: calculate_md5_def open_rb_def unreadable_def)
    next
      case far: False
      with m have le: "length content \<le> m * blocksize" by simp
      have pre: "?buf = [] \<longrightarrow> ?rest = []" using assms(2) by (cases content) auto
      have cond: "?buf \<noteq> [] \<longrightarrow> j < 1 \<or> length ?rest + blocksize \<le> (j - 1) * blocksize"
      proof
        assume "?buf \<noteq> []"
        then have "0 < length content" by (cases content) auto
        with le have "0 < m" by (cases m) auto
        then have "blocksize \<le> m * blocksize" by (cases m) auto
        with le have "length content - blocksize + blocksize \<le> m * blocksize" by arith
        with m show "j < 1 \<or> length ?rest + blocksize \<le> (j - 1) * blocksize" by simp
      qed
      have "md5_loop hs (ReadFails j) blocksize 1 (md5_new hs) ?buf ?rest
             = Some (md5_update hs (md5_new hs) (?buf @ ?rest))"
        using assms(1,2) pre cond by (rule md5_loop_miss)
      with far ReadFails assms(3) rb show ?thesis
        by (simp add: calculate_md5_def open_rb_def unreadable_def md5_of_def)
    qed
  qed
qed


lemma calculate_md5_no_file:
  "(\<And>content. lookup fsys p \<noteq> Some (File content)) \<Longrightarrow>
     calculate_md5 hs fault fsys p blocksize = ''ERROR_HASH''"
  by (auto simp: calculate_md5_def open_rb_def split: option.splits node.splits)

lemma streaming_checksum8: "streaming checksum8"
  by (simp add: streaming_def checksum8_def)

lemma hexdigit_lowercase: "hexdigit n \<in> set ''0123456789abcdef''"
  unfolding hexdigit_def by (rule nth_mem) simp

lemma lowercase_hex_checksum8: "lowercase_hex checksum8"
  using hexdigit_lowercase by (simp add: lowercase_hex_def checksum8_def)

text \<open>
  C8. For every path, the digest reads the file block by block into the hash accumulator
  and returns what hashing the whole content at once returns; when the path is no readable
  regular file, or a read fails before the end of the file, it returns the sentinel
  \<^verbatim>\<open>"ERROR_HASH"\<close> instead of raising, and no lowercase hex digest equals the sentinel.
\<close>

theorem calculate_md5_streams_or_sentinel:
  assumes "streaming hs" and "0 < blocksize"
  shows "calculate_md5 hs fault fsys p blocksize =
           (case lookup fsys p of
              Some (File content) \<Rightarrow>
                if unreadable fault blocksize content then ''ERROR_HASH''
                else md5_of hs content
            | _ \<Rightarrow> ''ERROR_HASH'')
         \<and> (lowercase_hex hs \<longrightarrow> md5_of hs bs \<noteq> ''ERROR_HASH'')"
proof
  show "calculate_md5 hs fault fsys p blocksize =
           (case lookup fsys p of
              Some (File content) \<Rightarrow>
                if unreadable fault blocksize content then ''ERROR_HASH''
                else md5_of hs content
            | _ \<Rightarrow> ''ERROR_HASH'')"
  proof (cases "\<exists>content. lookup fsys p = Some (File content)")
    case True
    then obtain content where c: "lookup fsys p = Some (File content)" by blast
    from calculate_md5_file[OF assms c] c show ?thesis by simp
  next
    case False
    then have "calculate_md5 hs fault fsys p blocksize = ''ERROR_HASH''"
      by (intro calculate_md5_no_file) blast
    with False show ?thesis by (auto split: option.splits node.splits)
  qed
  show "lowercase_hex hs \<longrightarrow> md5_of hs bs \<noteq> ''ERROR_HASH''"
  proof
    assume hex: "lowercase_hex hs"
    show "md5_of hs bs \<noteq> ''ERROR_HASH''"
    proof
      assume eq: "md5_of hs bs = ''ERROR_HASH''"
      have "set (md5_of hs bs) \<subseteq> set ''0123456789abcdef''"
        using hex by (simp add: lowercase_hex_def md5_of_def)
      with eq show False by simp
    qed
  qed
qed

theorem calculate_md5_streams_or_sentinel_witness:
  "streaming checksum8 \<and> (0::nat) < 1 \<and> lowercase_hex checksum8
   \<and> calculate_md5 checksum8 NoFault two_files [''src'', ''a''] 1 = md5_of checksum8 ''hi''
   \<and> md5_of checksum8 ''hi'' = ''d1''
   \<and> calculate_md5 checksum8 (ReadFails 2) two_files [''src'', ''a''] 1 = ''ERROR_HASH''
   \<and> calculate_md5 checksum8 NoFault two_files [''src''] 1 = ''ERROR_HASH''"
  using calculate_md5_streams_or_sentinel [OF streaming_checksum8, of 1 NoFault two_files "[''src'', ''a'']" "''hi''"]
        calculate_md5_streams_or_sentinel [OF streaming_checksum8, of 1 "ReadFails 2" two_files "[''src'', ''a'']" "''hi''"]
        calculate_md5_streams_or_sentinel [OF streaming_checksum8, of 1 NoFault two_files "[''src'']" "''hi''"]
        streaming_checksum8 lowercase_hex_checksum8
  by (simp add: two_files_def unreadable_def md5_of_def checksum8_def hexdigit_def)

section \<open>A missing source directory and a digest mismatch end the task\<close>

text \<open>
  C7. When the source directory of a task does not exist at its start, the task ends at once
  in failure and nothing else is done: the result is the state it started from with the one
  failure signal appended, so no directory is created and no file is copied, verified or
  deleted.
\<close>

theorem missing_source_fails_without_work:
  "\<not> path_exists (fs s) src_dir \<Longrightarrow>
     process_directory hs ev task_index src_dir dst_dir mode s =
       (None, s\<lparr>log := log s @ [Operation_finished task_index False
                                   (''Source directory not found: '' @ path_str src_dir)]\<rparr>)"
  by (simp add: process_directory_def emit_def)

theorem missing_source_fails_without_work_witness:
  "\<not> path_exists (fs (boot two_files)) [''nope'']
   \<and> process_directory checksum8 quiet 0 [''nope''] [''dst''] ''verify_and_delete'' (boot two_files) =
       (None, (boot two_files)\<lparr>log := [Operation_finished 0 False
                                           ''Source directory not found: /nope'']\<rparr>)"
  using missing_source_fails_without_work [of "boot two_files" "[''nope'']" checksum8 quiet 0
          "[''dst'']" "''verify_and_delete''"]
  by (simp add: path_exists_def boot_def two_files_def path_str_def)

lemmas digest_eval = calculate_md5_def open_rb_def read_block_def BLOCKSIZE_def md5_loop.simps
  checksum8_def hexdigit_def

text \<open>
  C10. When the verification of a file finds the two digests different, the worker only
  records the two digests, emits the failure signal and returns: the file system, and with
  it the mismatching destination copy, is what it was after the copy, and the file loop
  ends with this iteration.
\<close>

theorem mismatch_keeps_destination:
  "calculate_md5 hs (md5_fault ev src_filepath) (fs s) src_filepath BLOCKSIZE
     \<noteq> calculate_md5 hs (md5_fault ev dst_filepath) (fs s) dst_filepath BLOCKSIZE \<Longrightarrow>
   verify_file hs ev task_index mode total_files file_idx src_filepath dst_filepath filename s =
     (Return,
      s\<lparr>log := log s @
         [Operation_progress task_index filename ''Verifying MD5...'',
          Md5 src_filepath (calculate_md5 hs (md5_fault ev src_filepath) (fs s) src_filepath BLOCKSIZE),
          Md5 dst_filepath (calculate_md5 hs (md5_fault ev dst_filepath) (fs s) dst_filepath BLOCKSIZE),
          Operation_finished task_index False (''MD5 Mismatch for '' @ filename @ ''. Copy failed.'')]\<rparr>)
   \<and> (\<forall>s'. process_file hs ev task_index src_dir dst_dir mode total_files file_idx f s0 = (Return, s')
          \<longrightarrow> process_files hs ev task_index src_dir dst_dir mode total_files file_idx (f # rest) s0
                = (Return, s'))"
  by (simp add: verify_file_def md5_call_def emit_def Let_def)

theorem mismatch_keeps_destination_witness:
  "calculate_md5 checksum8 (md5_fault quiet [''src'', ''a'']) (fs (boot corrupted_copy)) [''src'', ''a''] BLOCKSIZE
     \<noteq> calculate_md5 checksum8 (md5_fault quiet [''dst'', ''a'']) (fs (boot corrupted_copy)) [''dst'', ''a''] BLOCKSIZE
   \<and> verify_file checksum8 quiet 0 ''verify_and_delete'' 1 0 [''src'', ''a''] [''dst'', ''a''] ''a''
        (boot corrupted_copy) =
     (Return,
      (boot corrupted_copy)\<lparr>log :=
         [Operation_progress 0 ''a'' ''Verifying MD5...'',
          Md5 [''src'', ''a''] ''d1'', Md5 [''dst'', ''a''] ''c0'',
          Operation_finished 0 False ''MD5 Mismatch for a. Copy failed.'']\<rparr>)
   \<and> lookup (fs (snd (verify_file checksum8 quiet 0 ''verify_and_delete'' 1 0 [''src'', ''a'']
          [''dst'', ''a''] ''a'' (boot corrupted_copy)))) [''dst'', ''a''] = Some (File ''hX'')"
  using mismatch_keeps_destination [of checksum8 quiet "[''src'', ''a'']" "boot corrupted_copy"
          "[''dst'', ''a'']" 0 "''verify_and_delete''" 1 0 "''a''" "[''src'']" "[''dst'']" "[''src'', ''a'']"
          "boot corrupted_copy" "[]"]
  by (simp add: digest_eval quiet_def boot_def corrupted_copy_def Let_def)

section \<open>Rate limiter\<close>

















lemmas fw_eval = fw_run_def fw_poll_def fw_requester_def fw_stop_def emit_def
  execute_file_operation_def execute_file_operation_with_def copy_and_finish_def
  write_chunk_def throttle_def effective_limit_def CHUNK_SIZE_def MAX_SPEED_BPS_def MAX_SPEED_MBPS_def
  os_remove_def remove_file_def quiet_def boot_def two_files_def one_file_def chunk_loop.simps
  capitalize_def upper_char_def lower_char_def Let_def



section \<open>Invariants of the batch worker's log\<close>

text \<open>A property of the log that the poll, the signals, \<^verbatim>\<open>os.makedirs\<close> and one iteration
  of the file loop preserve is preserved by the whole run.\<close>

lemma process_files_invariant:
  assumes pf: "\<And>s idx f. I (log s) \<Longrightarrow>
                 I (log (snd (process_file hs ev ti sd dd mode tot idx f s)))"
  shows "I (log s) \<Longrightarrow> I (log (snd (process_files hs ev ti sd dd mode tot idx files s)))"
proof (induction files arbitrary: s idx)
  case Nil
  then show ?case by simp
next
  case (Cons f rest)
  obtain fl s' where st: "process_file hs ev ti sd dd mode tot idx f s = (fl, s')" by fastforce
  have d: "I (log s')" using pf[OF Cons.prems, of idx f] st by simp
  show ?case using d Cons.IH[OF d] by (cases fl) (simp_all add: st)
qed

lemma process_directory_invariant:
  assumes sig: "\<And>s a. I (log s) \<Longrightarrow> is_signal a \<Longrightarrow> I (log (emit a s))"
    and mk: "\<And>s p. I (log s) \<Longrightarrow> I (log (snd (os_makedirs p s)))"
    and pf: "\<And>s idx f tot. I (log s) \<Longrightarrow>
                 I (log (snd (process_file hs ev ti sd dd mode tot idx f s)))"
    and s: "I (log s)"
  shows "I (log (snd (process_directory hs ev ti sd dd mode s)))"
proof (cases "path_exists (fs s) sd")
  case False
  with s show ?thesis by (simp add: process_directory_def sig)
next
  case True
  obtain e1 s1 where m: "os_makedirs dd s = (e1, s1)" by fastforce
  have d1: "I (log s1)" using mk[OF s, of dd] m by simp
  define all_files where
    "all_files = (case lookup (fs s1) sd of None \<Rightarrow> [] | Some n \<Rightarrow> walk_files sd n)"
  obtain fl s2 where
    st: "process_files hs ev ti sd dd mode (length all_files) 0 all_files s1 = (fl, s2)"
    by fastforce
  have d2: "I (log s2)"
    using process_files_invariant[of I hs ev ti sd dd mode "length all_files" s1 0 all_files,
            OF pf d1] st
    by simp
  show ?thesis
  proof (cases e1)
    case (Some e)
    with True m d1 show ?thesis by (simp add: process_directory_def)
  next
    case None
    show ?thesis
    proof (cases "all_files = []")
      case e: True
      with True None m d1 show ?thesis
        by (simp add: process_directory_def all_files_def[symmetric] sig)
    next
      case ne: False
      with True None m d2 st show ?thesis
        by (cases fl) (simp_all add: process_directory_def all_files_def[symmetric] Let_def sig)
    qed
  qed
qed

lemma run_tasks_invariant:
  assumes po: "\<And>s. I (log s) \<Longrightarrow> I (log (snd (poll ev s)))"
    and sig: "\<And>s a. I (log s) \<Longrightarrow> is_signal a \<Longrightarrow> I (log (emit a s))"
    and mk: "\<And>s p. I (log s) \<Longrightarrow> I (log (snd (os_makedirs p s)))"
    and pf: "\<And>s ti sd dd mode tot idx f. I (log s) \<Longrightarrow>
                 I (log (snd (process_file hs ev ti sd dd mode tot idx f s)))"
  shows "I (log s) \<Longrightarrow> I (log (run_tasks hs ev i tasks s))"
proof (induction tasks arbitrary: s i)
  case Nil
  then show ?case by simp
next
  case (Cons t rest)
  obtain r s1 where p: "poll ev s = (r, s1)" by fastforce
  have d1: "I (log s1)" using po[OF Cons.prems] p by simp
  let ?s2 = "emit (Overall_progress 0) s1"
  have d2: "I (log ?s2)" using d1 by (simp add: sig)
  obtain e s' where
    pd: "process_directory hs ev i (task_source t) (task_destination t) (task_mode t) ?s2 = (e, s')"
    by fastforce
  have d3: "I (log s')"
    using process_directory_invariant[of I hs ev i "task_source t" "task_destination t" "task_mode t" ?s2,
            OF sig mk pf d2] pd
    by simp
  define s3 where
    "s3 = (if task_mode t \<in> set [''verify_and_delete'', ''copy''] then
             (case (e, s') of
                (None, s') \<Rightarrow> s'
              | (Some e, s') \<Rightarrow>
                  emit (Operation_finished i False (''Critical Error: '' @ exn_str ev e)) s')
           else emit (Operation_finished i False (''Unknown mode: '' @ task_mode t)) ?s2)"
  have d4: "I (log s3)"
    using d2 d3 by (cases e) (simp_all add: s3_def sig)
  have "run_tasks hs ev i (t # rest) s = (if \<not> r then s1 else run_tasks hs ev (Suc i) rest s3)"
    by (simp add: p pd s3_def Let_def)
  with d1 Cons.IH[OF d4] show ?case by simp
qed

lemma run_invariant:
  assumes po: "\<And>s. I (log s) \<Longrightarrow> I (log (snd (poll ev s)))"
    and sig: "\<And>s a. I (log s) \<Longrightarrow> is_signal a \<Longrightarrow> I (log (emit a s))"
    and mk: "\<And>s p. I (log s) \<Longrightarrow> I (log (snd (os_makedirs p s)))"
    and pf: "\<And>s ti sd dd mode tot idx f. I (log s) \<Longrightarrow>
                 I (log (snd (process_file hs ev ti sd dd mode tot idx f s)))"
    and s: "I (log s)"
  shows "I (log (run hs ev tasks s))"
proof -
  have "I (log (run_tasks hs ev 0 tasks s))"
    by (rule run_tasks_invariant[of I ev hs s 0 tasks, OF po sig mk pf s])
  moreover have "is_signal (Overall_progress 100)" by simp
  ultimately show ?thesis unfolding run_def by (rule sig)
qed

lemma held_after_append: "held_after h (xs @ ys) = held_after (held_after h xs) ys"
  by (induction h xs rule: held_after.induct) simp_all

lemma under_lock_append:
  "under_lock h (xs @ ys) \<longleftrightarrow> under_lock h xs \<and> under_lock (held_after h xs) ys"
  by (induction h xs rule: under_lock.induct) auto

lemma disciplined_plain: "disciplined l \<Longrightarrow> \<not> is_sync a \<Longrightarrow> disciplined (l @ [a])"
  by (cases a) (simp_all add: disciplined_def under_lock_append held_after_append)

lemma disciplined_read: "disciplined l \<Longrightarrow> disciplined (l @ [MutexLock, FlagRead b, MutexUnlock])"
  by (simp add: disciplined_def under_lock_append held_after_append)

lemma disciplined_write: "disciplined l \<Longrightarrow> disciplined (l @ [MutexLock, FlagWrite b, MutexUnlock])"
  by (simp add: disciplined_def under_lock_append held_after_append)

lemma emit_disciplined: "disciplined (log s) \<Longrightarrow> \<not> is_sync a \<Longrightarrow> disciplined (log (emit a s))"
  by (simp add: emit_def disciplined_plain)

lemma stop_disciplined: "disciplined (log s) \<Longrightarrow> disciplined (log (stop s))"
  using disciplined_write[of "log s" False] by (simp add: stop_def emit_def Let_def)

lemma poll_disciplined: "disciplined (log s) \<Longrightarrow> disciplined (log (snd (poll ev s)))"
proof -
  assume d: "disciplined (log s)"
  have "disciplined (log (requester ev s))"
    using d stop_disciplined by (simp add: requester_def)
  from disciplined_read[OF this, of "is_running (requester ev s)"]
  show ?thesis by (simp add: poll_def emit_def Let_def)
qed

lemma os_makedirs_disciplined:
  "disciplined (log s) \<Longrightarrow> disciplined (log (snd (os_makedirs p s)))"
  by (auto simp: os_makedirs_def Let_def emit_def split: sum.splits intro: disciplined_plain)

lemma copy2_disciplined:
  "disciplined (log s) \<Longrightarrow> disciplined (log (snd (copy2 ev a b s)))"
  by (auto simp: copy2_def Let_def emit_def
           split: sum.splits option.splits node.splits copy_fault.splits intro: disciplined_plain)

lemma os_remove_disciplined:
  "disciplined (log s) \<Longrightarrow> disciplined (log (snd (os_remove ev p s)))"
  by (auto simp: os_remove_def Let_def emit_def split: sum.splits option.splits intro: disciplined_plain)

lemma md5_call_disciplined:
  "disciplined (log s) \<Longrightarrow> disciplined (log (snd (md5_call hs ev p s)))"
  by (auto simp: md5_call_def Let_def emit_def intro: disciplined_plain)

lemma verify_file_disciplined:
  assumes "disciplined (log s)"
  shows "disciplined (log (snd (verify_file hs ev ti mode tot idx src dst fn s)))"
proof -
  let ?s1 = "emit (Operation_progress ti fn ''Verifying MD5...'') s"
  obtain a s2 where m1: "md5_call hs ev src ?s1 = (a, s2)" by fastforce
  obtain b s3 where m2: "md5_call hs ev dst s2 = (b, s3)" by fastforce
  have d1: "disciplined (log ?s1)" using assms by (simp add: emit_disciplined)
  have d2: "disciplined (log s2)" using md5_call_disciplined[OF d1, of hs ev src] m1 by simp
  have d3: "disciplined (log s3)" using md5_call_disciplined[OF d2, of hs ev dst] m2 by simp
  have d4: "disciplined (log (snd (os_remove ev src (emit (Operation_progress ti fn ''Deleting Source...'') s3))))"
    using d3 by (simp add: os_remove_disciplined emit_disciplined)
  show ?thesis
    using d3 d4
    by (auto simp: verify_file_def m1 m2 Let_def emit_disciplined split: prod.splits option.splits if_splits)
qed

lemma process_file_disciplined:
  assumes "disciplined (log s)"
  shows "disciplined (log (snd (process_file hs ev ti sd dd mode tot idx f s)))"
proof -
  obtain r s1 where p: "poll ev s = (r, s1)" by fastforce
  have d1: "disciplined (log s1)" using poll_disciplined[OF assms, of ev] p by simp
  let ?dst = "dd @ drop (length sd) f"
  obtain e2 s2 where m: "os_makedirs (dirname ?dst) s1 = (e2, s2)" by fastforce
  have d2: "disciplined (log s2)" using os_makedirs_disciplined[OF d1, of "dirname ?dst"] m by simp
  let ?s3 = "emit (Operation_progress ti (basename f) ''Copying...'') s2"
  have d3: "disciplined (log ?s3)" using d2 by (simp add: emit_disciplined)
  obtain e4 s4 where c: "copy2 ev f ?dst ?s3 = (e4, s4)" by fastforce
  have d4: "disciplined (log s4)" using copy2_disciplined[OF d3, of ev f ?dst] c by simp
  show ?thesis
    using d1 d2 d4 verify_file_disciplined[OF d4]
    by (auto simp: process_file_def p m c Let_def split: option.splits)
qed

lemma matched_mono: "matched p hist \<Longrightarrow> matched p (xs @ hist)"
  by (induction xs) simp_all

lemma removals_guarded_append:
  "removals_guarded h (xs @ ys) \<longleftrightarrow> removals_guarded h xs \<and> removals_guarded (rev xs @ h) ys"
  by (induction xs arbitrary: h) auto

lemma removals_guarded_plain:
  "\<forall>a\<in>set xs. \<not> is_remove a \<Longrightarrow> removals_guarded h xs"
proof (induction xs arbitrary: h)
  case Nil
  then show ?case by simp
next
  case (Cons a xs)
  then show ?case by (cases a) simp_all
qed

lemma guarded_plain:
  "deleted_only_after_match l \<Longrightarrow> \<forall>a\<in>set xs. \<not> is_remove a \<Longrightarrow> deleted_only_after_match (l @ xs)"
  by (simp add: deleted_only_after_match_def removals_guarded_append removals_guarded_plain)

lemma emit_guarded:
  "deleted_only_after_match (log s) \<Longrightarrow> \<not> is_remove a \<Longrightarrow> deleted_only_after_match (log (emit a s))"
  using guarded_plain[of "log s" "[a]"] by (simp add: emit_def)

lemma poll_guarded:
  "deleted_only_after_match (log s) \<Longrightarrow> deleted_only_after_match (log (snd (poll ev s)))"
proof -
  assume g: "deleted_only_after_match (log s)"
  have "\<exists>xs. log (snd (poll ev s)) = log s @ xs \<and> (\<forall>a\<in>set xs. \<not> is_remove a)"
    by (auto simp: poll_def requester_def stop_def emit_def Let_def)
  with g show ?thesis using guarded_plain by metis
qed

lemma os_makedirs_guarded:
  "deleted_only_after_match (log s) \<Longrightarrow> deleted_only_after_match (log (snd (os_makedirs p s)))"
  using guarded_plain[of "log s" "[MakeDirs p]"]
  by (auto simp: os_makedirs_def Let_def emit_def split: sum.splits)

lemma copy2_log: "log (snd (copy2 ev a b s)) = log s @ [Copy2 a b]"
  by (auto simp: copy2_def Let_def emit_def
           split: sum.splits option.splits node.splits copy_fault.splits)

lemma copy2_guarded:
  "deleted_only_after_match (log s) \<Longrightarrow> deleted_only_after_match (log (snd (copy2 ev a b s)))"
  using guarded_plain[of "log s" "[Copy2 a b]"] by (simp add: copy2_log)

lemma verify_file_guarded:
  assumes "deleted_only_after_match (log s)" and "Copy2 src dst \<in> set (log s)"
  shows "deleted_only_after_match (log (snd (verify_file hs ev ti mode tot idx src dst fn s)))"
  using assms
  by (auto simp: verify_file_def md5_call_def os_remove_def emit_def Let_def
                 deleted_only_after_match_def removals_guarded_append
           split: option.splits sum.splits)

lemma process_file_guarded:
  assumes "deleted_only_after_match (log s)"
  shows "deleted_only_after_match (log (snd (process_file hs ev ti sd dd mode tot idx f s)))"
proof -
  obtain r s1 where p: "poll ev s = (r, s1)" by fastforce
  have d1: "deleted_only_after_match (log s1)" using poll_guarded[OF assms, of ev] p by simp
  let ?dst = "dd @ drop (length sd) f"
  obtain e2 s2 where m: "os_makedirs (dirname ?dst) s1 = (e2, s2)" by fastforce
  have d2: "deleted_only_after_match (log s2)" using os_makedirs_guarded[OF d1, of "dirname ?dst"] m by simp
  let ?s3 = "emit (Operation_progress ti (basename f) ''Copying...'') s2"
  have d3: "deleted_only_after_match (log ?s3)" using d2 by (simp add: emit_guarded)
  obtain e4 s4 where c: "copy2 ev f ?dst ?s3 = (e4, s4)" by fastforce
  have d4: "deleted_only_after_match (log s4)" using copy2_guarded[OF d3, of ev f ?dst] c by simp
  have c4: "Copy2 f ?dst \<in> set (log s4)" using copy2_log[of ev f ?dst ?s3] c by simp
  show ?thesis
    using d1 d2 d4 verify_file_guarded[OF d4 c4]
    by (auto simp: process_file_def p m c Let_def split: option.splits)
qed

lemma signal_plain: "is_signal a \<Longrightarrow> \<not> is_sync a \<and> \<not> is_remove a"
  by (cases a) simp_all

lemma run_disciplined:
  assumes "disciplined (log s)"
  shows "disciplined (log (run hs ev tasks s))"
proof (rule run_invariant[of disciplined, OF _ _ _ _ assms])
  show "\<And>s a. disciplined (log s) \<Longrightarrow> is_signal a \<Longrightarrow> disciplined (log (emit a s))"
    by (simp add: emit_disciplined signal_plain)
qed (simp_all add: poll_disciplined os_makedirs_disciplined process_file_disciplined)

lemma run_guarded:
  assumes "deleted_only_after_match (log s)"
  shows "deleted_only_after_match (log (run hs ev tasks s))"
proof (rule run_invariant[of deleted_only_after_match, OF _ _ _ _ assms])
  show "\<And>s a. deleted_only_after_match (log s) \<Longrightarrow> is_signal a
          \<Longrightarrow> deleted_only_after_match (log (emit a s))"
    by (simp add: emit_guarded signal_plain)
qed (simp_all add: poll_guarded os_makedirs_guarded process_file_guarded)


section \<open>Cancellation token: lock discipline\<close>

text \<open>
  C9, as stated, fails for the throttled copier: \<^verbatim>\<open>FileWorker.stop\<close> writes the flag
  without any lock (the class has no mutex).
\<close>

theorem fw_stop_without_lock_counterexample:
  "log (fw_stop (boot two_files)) = [FlagWrite False]
   \<and> \<not> flag_only_under_lock (log (fw_stop (boot two_files)))"
  by (simp add: fw_stop_def emit_def boot_def flag_only_under_lock_def)

text \<open>
  C9, amended. In the batch worker the flag is accessed only under its mutex:
  \<^verbatim>\<open>stop()\<close> clears it while holding the lock, and every poll of a run, with the
  requester's \<^verbatim>\<open>stop()\<close> landing anywhere between them, reads it while holding the
  lock. (The throttled single-file copier has no lock and accesses its flag directly.)
\<close>

theorem batch_flag_only_under_lock:
  "log s = [] \<Longrightarrow>
     is_running (stop s) = False
     \<and> flag_only_under_lock (log (stop s))
     \<and> flag_only_under_lock (log (run hs ev task_list s))"
proof -
  assume e: "log s = []"
  then have d: "disciplined (log s)" by (simp add: disciplined_def)
  have "disciplined (log (run hs ev task_list s))" using d by (rule run_disciplined)
  moreover have "disciplined (log (stop s))" using d by (rule stop_disciplined)
  moreover have "is_running (stop s) = False" by (simp add: stop_def emit_def Let_def)
  ultimately show ?thesis by (simp add: disciplined_def flag_only_under_lock_def)
qed

theorem batch_flag_only_under_lock_witness:
  "log (boot two_files) = []
   \<and> log (stop (boot two_files)) = [MutexLock, FlagWrite False, MutexUnlock]
   \<and> is_running (stop (boot two_files)) = False
   \<and> flag_only_under_lock (log (stop (boot two_files)))
   \<and> flag_only_under_lock (log (run checksum8 (quiet\<lparr>stop_at := Some 2\<rparr>)
        [\<lparr>task_source = [''src''], task_destination = [''dst''],
          task_mode = ''verify_and_delete''\<rparr>] (boot two_files)))"
  using batch_flag_only_under_lock [of "boot two_files" checksum8 "quiet\<lparr>stop_at := Some 2\<rparr>"
          "[\<lparr>task_source = [''src''], task_destination = [''dst''],
             task_mode = ''verify_and_delete''\<rparr>]"]
  by (simp add: boot_def stop_def emit_def)


section \<open>Deletion of the source\<close>

lemmas batch_eval = run_def poll_def requester_def stop_def emit_def process_directory_def
  process_file_def verify_file_def md5_call_def os_makedirs_def copy2_def os_remove_def
  remove_file_def path_exists_def path_str_def basename_def dirname_def
  quiet_def boot_def two_files_def one_file_def Let_def

text \<open>
  C1, as stated, fails: the throttled copier in mode \<^verbatim>\<open>move\<close> removes the source file
  after the copy loop without computing any digest (the class has no digest at all).
\<close>

theorem move_deletes_without_digest_counterexample:
  "log (fw_run quiet \<lparr>src_path = [''src'', ''a''], dest_path = [''dst''], operation = ''move'',
                       speed_limit_mbps = 1\<rparr> (boot one_file)) =
     [FlagRead True, Status_message ''Starting move operation...'',
      OpenRead [''src'', ''a''], OpenWrite [''dst''], FlagRead True,
      WriteChunk [''dst''] 2, Progress_update 100, Sleep (1 / 524288),
      Speed_update 1, FlagRead True, FlagRead True,
      Remove [''src'', ''a''],
      Status_message ''Source file deleted (Move operation complete).'',
      Status_message ''Operation complete: Move successful.'', Finished]
   \<and> \<not> deleted_only_after_match
        (log (fw_run quiet \<lparr>src_path = [''src'', ''a''], dest_path = [''dst''], operation = ''move'',
                              speed_limit_mbps = 1\<rparr> (boot one_file)))
   \<and> lookup (fs (fw_run quiet \<lparr>src_path = [''src'', ''a''], dest_path = [''dst''],
                                  operation = ''move'', speed_limit_mbps = 1\<rparr> (boot one_file)))
        [''src'', ''a''] = None"
proof -
  let ?r = "fw_run quiet \<lparr>src_path = [''src'', ''a''], dest_path = [''dst''], operation = ''move'',
                           speed_limit_mbps = 1\<rparr> (boot one_file)"
  have l: "log ?r =
     [FlagRead True, Status_message ''Starting move operation...'',
      OpenRead [''src'', ''a''], OpenWrite [''dst''], FlagRead True,
      WriteChunk [''dst''] 2, Progress_update 100, Sleep (1 / 524288),
      Speed_update 1, FlagRead True, FlagRead True,
      Remove [''src'', ''a''],
      Status_message ''Source file deleted (Move operation complete).'',
      Status_message ''Operation complete: Move successful.'', Finished]"
    apply (simp add: fw_eval)
    apply code_simp
    done
  have f: "lookup (fs ?r) [''src'', ''a''] = None"
    by (simp add: fw_eval)
  have "\<not> deleted_only_after_match (log ?r)"
    unfolding l by (simp add: deleted_only_after_match_def)
  with l f show ?thesis by simp
qed

text \<open>
  C1, amended. In the batch worker a source file is removed only after it has been copied
  to its destination and \<^verbatim>\<open>_calculate_md5\<close> has then been called on the source and on
  that destination and has returned the same string for both; this holds for every task
  list, every injected fault and every moment at which \<^verbatim>\<open>stop()\<close> lands. (The
  throttled single-file copier removes the source of a move once the copy loop has ended
  without cancellation, with no digest.)
\<close>

theorem batch_deletes_only_after_match:
  "log s = [] \<Longrightarrow> deleted_only_after_match (log (run hs ev task_list s))"
proof -
  assume "log s = []"
  then have "deleted_only_after_match (log s)" by (simp add: deleted_only_after_match_def)
  then show ?thesis by (rule run_guarded)
qed

theorem batch_deletes_only_after_match_witness:
  "log (boot one_file) = []
   \<and> log (run checksum8 quiet
        [\<lparr>task_source = [''src''], task_destination = [''dst''],
          task_mode = ''verify_and_delete''\<rparr>] (boot one_file)) =
      [MutexLock, FlagRead True, MutexUnlock, Overall_progress 0,
       MakeDirs [''dst''], MutexLock, FlagRead True, MutexUnlock,
       MakeDirs [''dst''], Operation_progress 0 ''a'' ''Copying...'',
       Copy2 [''src'', ''a''] [''dst'', ''a''],
       Operation_progress 0 ''a'' ''Verifying MD5...'',
       Md5 [''src'', ''a''] ''d1'', Md5 [''dst'', ''a''] ''d1'',
       Operation_progress 0 ''a'' ''Deleting Source...'',
       Remove [''src'', ''a''], Overall_progress 100,
       Operation_finished 0 True ''Operation **verify_and_delete** successful.'',
       Overall_progress 100]
   \<and> deleted_only_after_match (log (run checksum8 quiet
        [\<lparr>task_source = [''src''], task_destination = [''dst''],
          task_mode = ''verify_and_delete''\<rparr>] (boot one_file)))"
proof -
  have e: "log (boot one_file) = []" by (simp add: boot_def)
  have l: "log (run checksum8 quiet
        [\<lparr>task_source = [''src''], task_destination = [''dst''],
          task_mode = ''verify_and_delete''\<rparr>] (boot one_file)) =
      [MutexLock, FlagRead True, MutexUnlock, Overall_progress 0,
       MakeDirs [''dst''], MutexLock, FlagRead True, MutexUnlock,
       MakeDirs [''dst''], Operation_progress 0 ''a'' ''Copying...'',
       Copy2 [''src'', ''a''] [''dst'', ''a''],
       Operation_progress 0 ''a'' ''Verifying MD5...'',
       Md5 [''src'', ''a''] ''d1'', Md5 [''dst'', ''a''] ''d1'',
       Operation_progress 0 ''a'' ''Deleting Source...'',
       Remove [''src'', ''a''], Overall_progress 100,
       Operation_finished 0 True ''Operation **verify_and_delete** successful.'',
       Overall_progress 100]"
    by (simp add: batch_eval digest_eval)
  from batch_deletes_only_after_match [OF e, of checksum8 quiet
        "[\<lparr>task_source = [''src''], task_destination = [''dst''],
          task_mode = ''verify_and_delete''\<rparr>]"] e l
  show ?thesis by simp
qed

text \<open>
  C2. The claim asks that a digest failure on both sides still ends the task in failure
  without deleting the source. The code compares the two sentinels, finds them equal,
  deletes the source and reports success: the run below has both \<^verbatim>\<open>open\<close> calls of the
  verification fail.
\<close>

theorem both_digests_failing_deletes_source:
  "run checksum8 (quiet\<lparr>md5_fault := (\<lambda>p. OpenFails)\<rparr>)
     [\<lparr>task_source = [''src''], task_destination = [''dst''],
       task_mode = ''verify_and_delete''\<rparr>] (boot one_file) =
   \<lparr>fs = Dir [(''src'', Dir []), (''dst'', Dir [(''a'', File ''hi'')])],
    is_running = True, polls = 2, clock = 0,
    log =
      [MutexLock, FlagRead True, MutexUnlock, Overall_progress 0,
       MakeDirs [''dst''], MutexLock, FlagRead True, MutexUnlock,
       MakeDirs [''dst''], Operation_progress 0 ''a'' ''Copying...'',
       Copy2 [''src'', ''a''] [''dst'', ''a''],
       Operation_progress 0 ''a'' ''Verifying MD5...'',
       Md5 [''src'', ''a''] ''ERROR_HASH'',
       Md5 [''dst'', ''a''] ''ERROR_HASH'',
       Operation_progress 0 ''a'' ''Deleting Source...'',
       Remove [''src'', ''a''], Overall_progress 100,
       Operation_finished 0 True ''Operation **verify_and_delete** successful.'',
       Overall_progress 100]\<rparr>"
  by (simp add: batch_eval digest_eval)

section \<open>Session scheduler: a failed task and the rest of the queue\<close>

text \<open>
  C6. The claim asks that no task after a failed one is executed. The worker's loop goes
  on to the next task after a failure; only \<^verbatim>\<open>stop()\<close> ends it, and the slot that
  handles the failure calls \<^verbatim>\<open>stop()\<close> only once the user has answered \<^verbatim>\<open>Yes\<close> in a
  dialog. Below, the first task fails (missing source) and the second one is run to its
  end when nobody stops the worker, and has already created its destination directory when
  the stop lands before the worker's third poll.
\<close>

theorem failed_task_does_not_halt_queue:
  "log (run checksum8 quiet
     [\<lparr>task_source = [''missing''], task_destination = [''out1''], task_mode = ''copy''\<rparr>,
      \<lparr>task_source = [''src''], task_destination = [''out2''], task_mode = ''copy''\<rparr>]
     (boot one_file)) =
      [MutexLock, FlagRead True, MutexUnlock, Overall_progress 0,
       Operation_finished 0 False ''Source directory not found: /missing'',
       MutexLock, FlagRead True, MutexUnlock, Overall_progress 0,
       MakeDirs [''out2''], MutexLock, FlagRead True, MutexUnlock,
       MakeDirs [''out2''], Operation_progress 1 ''a'' ''Copying...'',
       Copy2 [''src'', ''a''] [''out2'', ''a''],
       Operation_progress 1 ''a'' ''Verifying MD5...'',
       Md5 [''src'', ''a''] ''d1'', Md5 [''out2'', ''a''] ''d1'',
       Overall_progress 100,
       Operation_finished 1 True ''Operation **copy** successful.'',
       Overall_progress 100]
   \<and> fs (run checksum8 quiet
     [\<lparr>task_source = [''missing''], task_destination = [''out1''], task_mode = ''copy''\<rparr>,
      \<lparr>task_source = [''src''], task_destination = [''out2''], task_mode = ''copy''\<rparr>]
     (boot one_file)) =
      Dir [(''src'', Dir [(''a'', File ''hi'')]), (''out2'', Dir [(''a'', File ''hi'')])]
   \<and> handle_task_completion 2 True No 0 False (boot one_file) = boot one_file
   \<and> is_running (handle_task_completion 2 True Yes 0 False (boot one_file)) = False
   \<and> run checksum8 (quiet\<lparr>stop_at := Some 2\<rparr>)
     [\<lparr>task_source = [''missing''], task_destination = [''out1''], task_mode = ''copy''\<rparr>,
      \<lparr>task_source = [''src''], task_destination = [''out2''], task_mode = ''copy''\<rparr>]
     (boot one_file) =
      \<lparr>fs = Dir [(''src'', Dir [(''a'', File ''hi'')]), (''out2'', Dir [])],
       is_running = False, polls = 3, clock = 0,
       log =
         [MutexLock, FlagRead True, MutexUnlock, Overall_progress 0,
          Operation_finished 0 False ''Source directory not found: /missing'',
          MutexLock, FlagRead True, MutexUnlock, Overall_progress 0,
          MakeDirs [''out2''], MutexLock, FlagWrite False, MutexUnlock,
          MutexLock, FlagRead False, MutexUnlock, Overall_progress 100]\<rparr>"
  by (simp add: batch_eval digest_eval handle_task_completion_def stop_operations_def)

section \<open>Cancellation\<close>

lemma lookup_below_file: "lookup (File v) p = Some n \<Longrightarrow> p = []"
  by (cases p) simp_all

lemma lookup_delete_entry:
  "p \<noteq> [] \<Longrightarrow> lookup t p = Some (File b) \<Longrightarrow> lookup (delete_entry t p) p = None"
proof (induction t p rule: delete_entry.induct)
  case (1 es c)
  then show ?case by (simp add: delete_conv')
next
  case (2 es c d cs)
  then show ?case by (auto simp: update_conv' split: option.splits)
qed (auto dest: lookup_below_file)

lemma remove_file_gone: "remove_file t p = Inr t' \<Longrightarrow> lookup t' p = None"
  by (auto simp: remove_file_def lookup_delete_entry split: if_splits option.splits node.splits)

lemma os_remove_done:
  "os_remove ev p s = (None, s') \<Longrightarrow>
     lookup (fs s') p = None \<and> log s' = log s @ [Remove p] \<and> is_running s' = is_running s"
  by (auto simp: os_remove_def emit_def Let_def remove_file_gone split: option.splits sum.splits)

lemma fw_poll_reads: "fw_poll ev s = (r, s') \<Longrightarrow> is_running s' = r"
  by (auto simp: fw_poll_def fw_requester_def fw_stop_def emit_def Let_def split: if_splits)

lemma copy_and_finish_cancelled:
  assumes "copy_and_finish ev w cs limit start_time fsz src_data s = (None, s')"
    and "\<not> is_running s'"
  shows "lookup (fs s') (dest_path w) = None
         \<and> (\<exists>pre. log s' = pre @ [Remove (dest_path w),
                Status_message ''Operation cancelled. Partial file removed.''])"
proof -
  obtain e s1 where l: "chunk_loop ev (dest_path w) cs limit start_time fsz 0 0 src_data s = (e, s1)"
    by fastforce
  obtain r s2 where p: "fw_poll ev s1 = (r, s2)" by fastforce
  have r2: "is_running s2 = r" using p by (rule fw_poll_reads)
  from assms(1) l have e: "e = None" by (cases e) (simp_all add: copy_and_finish_def)
  show ?thesis
  proof (cases r)
    case True
    with assms l p e r2 show ?thesis
      by (auto simp: copy_and_finish_def emit_def split: if_splits option.splits prod.splits
               dest: os_remove_done)
  next
    case False
    with assms(1) l p e obtain s3 where
      rm: "os_remove ev (dest_path w) s2 = (None, s3)"
      and s': "s' = emit (Status_message ''Operation cancelled. Partial file removed.'') s3"
      by (auto simp: copy_and_finish_def split: option.splits prod.splits)
    from os_remove_done[OF rm] s' show ?thesis by (simp add: emit_def)
  qed
qed

lemma execute_cancelled:
  assumes "execute_file_operation ev w s = (None, s')" and "\<not> is_running s'"
  shows "lookup (fs s') (dest_path w) = None
         \<and> (\<exists>pre. log s' = pre @ [Remove (dest_path w),
                Status_message ''Operation cancelled. Partial file removed.''])"
  using assms
  by (auto simp: execute_file_operation_def execute_file_operation_with_def Let_def
           split: option.splits node.splits sum.splits
           dest!: copy_and_finish_cancelled)

lemma requester_frame:
  "polls (requester ev t) = polls t" "fs (requester ev t) = fs t" "clock (requester ev t) = clock t"
  by (simp_all add: requester_def stop_def emit_def Let_def)

lemma process_files_cancelled:
  "\<not> is_running (requester ev t) \<Longrightarrow>
     process_files hs ev ti sd dd mode tot idx (f # rest) t =
       (Return, (requester ev t)\<lparr>log := log (requester ev t) @ [MutexLock, FlagRead False, MutexUnlock],
                                  polls := Suc (polls t)\<rparr>)"
  by (simp add: process_file_def poll_def emit_def Let_def requester_frame)


lemma verified_copy_append: "verified_copy p q xs \<Longrightarrow> verified_copy p q (xs @ ys)"
  by (induction p q xs rule: verified_copy.induct) auto

lemma copy_ok_append: "copy_ok a xs \<Longrightarrow> copy_ok a (xs @ ys)"
  by (cases a) (simp_all add: verified_copy_append)

lemma copies_verified_append:
  "copies_verified xs \<Longrightarrow> copies_verified ys \<Longrightarrow> copies_verified (xs @ ys)"
  by (induction xs) (simp_all add: copy_ok_append)

lemma copies_verified_plain: "\<forall>a\<in>set xs. \<not> is_copy a \<Longrightarrow> copies_verified xs"
proof (induction xs)
  case Nil
  then show ?case by simp
next
  case (Cons a xs)
  then show ?case by (cases a) simp_all
qed

lemma poll_block:
  "poll ev s = (r, s') \<Longrightarrow>
     is_running s' = r \<and> (\<exists>P. log s' = log s @ P \<and> (\<forall>a\<in>set P. \<not> is_copy a))"
  by (auto simp: poll_def requester_def stop_def emit_def Let_def split: if_splits)

lemma os_makedirs_block:
  "os_makedirs p s = (e, s') \<Longrightarrow> is_running s' = is_running s \<and> log s' = log s @ [MakeDirs p]"
  by (auto simp: os_makedirs_def emit_def Let_def split: sum.splits)

lemma copy2_block:
  "copy2 ev a b s = (e, s') \<Longrightarrow> is_running s' = is_running s \<and> log s' = log s @ [Copy2 a b]"
  by (auto simp: copy2_def Let_def emit_def
           split: sum.splits option.splits node.splits copy_fault.splits if_splits)

lemma verify_file_block:
  "verify_file hs ev ti mode tot idx src dst fn s = (fl, s') \<Longrightarrow>
     is_running s' = is_running s
     \<and> (\<exists>V. log s' = log s @ V
            \<and> (fl = Next \<longrightarrow>
                 (\<exists>h rest. V = [Operation_progress ti fn ''Verifying MD5...'', Md5 src h, Md5 dst h] @ rest
                            \<and> (\<forall>a\<in>set rest. \<not> is_copy a))))"
  by (auto simp: verify_file_def md5_call_def os_remove_def emit_def Let_def
           split: option.splits sum.splits if_splits)

lemma process_file_block:
  assumes "process_file hs ev ti sd dd mode tot idx f s = (fl, s')"
  shows "\<exists>B. log s' = log s @ B \<and> (fl = Next \<or> \<not> is_running s' \<longrightarrow> copies_verified B)"
proof -
  obtain r s1 where p: "poll ev s = (r, s1)" by fastforce
  from poll_block[OF p] obtain P where
    r1: "is_running s1 = r" and l1: "log s1 = log s @ P" and P: "\<forall>a\<in>set P. \<not> is_copy a"
    by blast
  show ?thesis
  proof (cases r)
    case False
    with assms p have "s' = s1" "fl = Return" by (simp_all add: process_file_def)
    with l1 P show ?thesis using copies_verified_plain by blast
  next
    case True
    let ?dst = "dd @ drop (length sd) f"
    obtain e2 s2 where m: "os_makedirs (dirname ?dst) s1 = (e2, s2)" by fastforce
    from os_makedirs_block[OF m] r1 True have
      r2: "is_running s2" and l2: "log s2 = log s1 @ [MakeDirs (dirname ?dst)]" by simp_all
    show ?thesis
    proof (cases e2)
      case (Some e)
      with assms p True m have "s' = s2" "fl = Raise e" by (simp_all add: process_file_def Let_def)
      with r2 l1 l2 show ?thesis by simp
    next
      case None
      let ?s3 = "emit (Operation_progress ti (basename f) ''Copying...'') s2"
      obtain e4 s4 where c: "copy2 ev f ?dst ?s3 = (e4, s4)" by fastforce
      from copy2_block[OF c] r2 have
        r4: "is_running s4"
        and l4: "log s4 = log s2 @ [Operation_progress ti (basename f) ''Copying...'', Copy2 f ?dst]"
        by (simp_all add: emit_def)
      show ?thesis
      proof (cases e4)
        case (Some e)
        with assms p True m None c have "s' = s4" "fl = Raise e"
          by (simp_all add: process_file_def Let_def)
        with r4 l1 l2 l4 show ?thesis by simp
      next
        case n4: None
        from assms p True m None c n4 have
          v: "verify_file hs ev ti mode tot idx f ?dst (basename f) s4 = (fl, s')"
          by (simp add: process_file_def Let_def)
        from verify_file_block[OF v] r4 obtain V where
          r': "is_running s'" and l': "log s' = log s4 @ V"
          and V: "fl = Next \<longrightarrow>
                 (\<exists>h rest. V = [Operation_progress ti (basename f) ''Verifying MD5...'', Md5 f h, Md5 ?dst h] @ rest
                            \<and> (\<forall>a\<in>set rest. \<not> is_copy a))"
          by auto
        let ?B = "P @ ([MakeDirs (dirname ?dst), Operation_progress ti (basename f) ''Copying...'',
                       Copy2 f ?dst] @ V)"
        have lB: "log s' = log s @ ?B" using l1 l2 l4 l' by simp
        have "copies_verified ?B" if "fl = Next"
        proof -
          from V that obtain h rest where
            Veq: "V = [Operation_progress ti (basename f) ''Verifying MD5...'', Md5 f h, Md5 ?dst h] @ rest"
            and rest: "\<forall>a\<in>set rest. \<not> is_copy a" by blast
          have "copies_verified rest" using rest by (rule copies_verified_plain)
          then have "copies_verified ([MakeDirs (dirname ?dst),
                       Operation_progress ti (basename f) ''Copying...'', Copy2 f ?dst] @ V)"
            by (simp add: Veq)
          with copies_verified_plain[OF P] show ?thesis by (rule copies_verified_append)
        qed
        with lB r' show ?thesis by blast
      qed
    qed
  qed
qed

lemma process_files_cancel_verified:
  "process_files hs ev ti sd dd mode tot idx files s = (fl, s') \<Longrightarrow> \<not> is_running s' \<Longrightarrow>
     \<exists>xs. log s' = log s @ xs \<and> copies_verified xs"
proof (induction files arbitrary: s idx)
  case Nil
  then show ?case by simp
next
  case (Cons f rest)
  obtain fl1 s1 where pf: "process_file hs ev ti sd dd mode tot idx f s = (fl1, s1)" by fastforce
  from process_file_block[OF pf] obtain B where
    lB: "log s1 = log s @ B" and B: "fl1 = Next \<or> \<not> is_running s1 \<longrightarrow> copies_verified B" by blast
  show ?case
  proof (cases "fl1 = Next")
    case True
    with Cons.prems(1) pf have
      "process_files hs ev ti sd dd mode tot (Suc idx) rest s1 = (fl, s')" by simp
    from Cons.IH[OF this Cons.prems(2)] obtain xs where
      "log s' = log s1 @ xs" "copies_verified xs" by blast
    with lB B True have "log s' = log s @ (B @ xs)" "copies_verified (B @ xs)"
      by (simp_all add: copies_verified_append)
    then show ?thesis by blast
  next
    case False
    with Cons.prems(1) pf have "s' = s1" by (cases fl1) simp_all
    with Cons.prems(2) lB B show ?thesis by blast
  qed
qed


text \<open>
  C3, as stated, fails for the batch worker: it polls the flag only between files. With the
  stop landing while the first of two files is being processed, that file is completed, its
  destination \<^verbatim>\<open>/dst/a\<close> is kept, and the run ends without any completion signal.
\<close>

theorem batch_cancel_keeps_in_flight_file_counterexample:
  "run checksum8 (quiet\<lparr>stop_at := Some 2\<rparr>)
     [\<lparr>task_source = [''src''], task_destination = [''dst''],
       task_mode = ''verify_and_delete''\<rparr>] (boot two_files) =
   \<lparr>fs = Dir [(''src'', Dir [(''b'', File ''yo'')]), (''dst'', Dir [(''a'', File ''hi'')])],
    is_running = False, polls = 3, clock = 0,
    log =
      [MutexLock, FlagRead True, MutexUnlock, Overall_progress 0,
       MakeDirs [''dst''], MutexLock, FlagRead True, MutexUnlock,
       MakeDirs [''dst''], Operation_progress 0 ''a'' ''Copying...'',
       Copy2 [''src'', ''a''] [''dst'', ''a''],
       Operation_progress 0 ''a'' ''Verifying MD5...'',
       Md5 [''src'', ''a''] ''d1'', Md5 [''dst'', ''a''] ''d1'',
       Operation_progress 0 ''a'' ''Deleting Source...'',
       Remove [''src'', ''a''], Overall_progress 50, MutexLock,
       FlagWrite False, MutexUnlock, MutexLock, FlagRead False, MutexUnlock,
       Overall_progress 100]\<rparr>"
  apply (simp add: batch_eval digest_eval)
  apply code_simp
  done

text \<open>
  C3, amended. In the throttled single-file copier, a copy that ends with the flag cleared
  has removed its partially written destination file before it reports the cancellation.
  The batch worker notices a cancellation only at the poll before a file: it then returns
  without touching the file system and without any completion signal, so the file that was
  in flight has been completed and kept; and every copy made by the file loop of a
  cancelled task was followed by two equal digests of its source and its destination.
\<close>

theorem cancellation_removes_partial_or_stops_between_files:
  "(execute_file_operation ev w s = (None, s') \<and> \<not> is_running s' \<longrightarrow>
      lookup (fs s') (dest_path w) = None
      \<and> (\<exists>pre. log s' = pre @ [Remove (dest_path w),
             Status_message ''Operation cancelled. Partial file removed.'']))
   \<and> (\<not> is_running (requester ev t) \<longrightarrow>
      process_files hs ev ti sd dd mode tot idx (f # rest) t =
        (Return, (requester ev t)\<lparr>log := log (requester ev t) @ [MutexLock, FlagRead False, MutexUnlock],
                                   polls := Suc (polls t)\<rparr>))
   \<and> (process_files hs ev ti sd dd mode tot idx files t = (fl, t') \<and> \<not> is_running t' \<longrightarrow>
      (\<exists>xs. log t' = log t @ xs \<and> copies_verified xs))"
  using execute_cancelled [of ev w s s'] process_files_cancelled [of ev t hs ti sd dd mode tot idx f rest]
        process_files_cancel_verified [of hs ev ti sd dd mode tot idx files t fl t']
  by blast

theorem cancellation_removes_partial_or_stops_between_files_witness:
  "execute_file_operation (quiet\<lparr>stop_at := Some 1\<rparr>)
      \<lparr>src_path = [''src'', ''a''], dest_path = [''dst''], operation = ''move'',
       speed_limit_mbps = 1\<rparr> (boot one_file) =
     (None,
      \<lparr>fs = Dir [(''src'', Dir [(''a'', File ''hi'')])], is_running = False,
       polls = 3, clock = 1 / 524288,
       log =
         [OpenRead [''src'', ''a''], OpenWrite [''dst''], FlagRead True,
          WriteChunk [''dst''] 2, Progress_update 100, Sleep (1 / 524288),
          Speed_update 1, FlagWrite False, FlagRead False, FlagRead False,
          Remove [''dst''],
          Status_message ''Operation cancelled. Partial file removed.'']\<rparr>)
   \<and> lookup (Dir [(''src'', Dir [(''a'', File ''hi'')])]) [''dst''] = None
   \<and> \<not> is_running (requester (quiet\<lparr>stop_at := Some 0\<rparr>) (boot two_files))
   \<and> process_files checksum8 (quiet\<lparr>stop_at := Some 0\<rparr>) 0 [''src''] [''dst'']
        ''verify_and_delete'' 2 0 [[''src'', ''a''], [''src'', ''b'']] (boot two_files) =
     (Return,
      \<lparr>fs = two_files, is_running = False, polls = 1, clock = 0,
       log = [MutexLock, FlagWrite False, MutexUnlock, MutexLock, FlagRead False, MutexUnlock]\<rparr>)
   \<and> process_files checksum8 (quiet\<lparr>stop_at := Some 1\<rparr>) 0 [''src''] [''dst'']
        ''verify_and_delete'' 2 0 [[''src'', ''a''], [''src'', ''b'']] (boot two_files) =
     (Return,
      \<lparr>fs = Dir [(''src'', Dir [(''b'', File ''yo'')]), (''dst'', Dir [(''a'', File ''hi'')])],
       is_running = False, polls = 2, clock = 0,
       log =
         [MutexLock, FlagRead True, MutexUnlock, MakeDirs [''dst''],
          Operation_progress 0 ''a'' ''Copying...'',
          Copy2 [''src'', ''a''] [''dst'', ''a''],
          Operation_progress 0 ''a'' ''Verifying MD5...'',
          Md5 [''src'', ''a''] ''d1'', Md5 [''dst'', ''a''] ''d1'',
          Operation_progress 0 ''a'' ''Deleting Source...'',
          Remove [''src'', ''a''], Overall_progress 50, MutexLock,
          FlagWrite False, MutexUnlock, MutexLock, FlagRead False,
          MutexUnlock]\<rparr>)
   \<and> copies_verified
         [MutexLock, FlagRead True, MutexUnlock, MakeDirs [''dst''],
          Operation_progress 0 ''a'' ''Copying...'',
          Copy2 [''src'', ''a''] [''dst'', ''a''],
          Operation_progress 0 ''a'' ''Verifying MD5...'',
          Md5 [''src'', ''a''] ''d1'', Md5 [''dst'', ''a''] ''d1'',
          Operation_progress 0 ''a'' ''Deleting Source...'',
          Remove [''src'', ''a''], Overall_progress 50, MutexLock,
          FlagWrite False, MutexUnlock, MutexLock, FlagRead False,
          MutexUnlock]"
proof -
  let ?w = "\<lparr>src_path = [''src'', ''a''], dest_path = [''dst''], operation = ''move'',
             speed_limit_mbps = 1\<rparr>"
  let ?S = "\<lparr>fs = Dir [(''src'', Dir [(''a'', File ''hi'')])], is_running = False,
       polls = 3, clock = 1 / 524288,
       log =
         [OpenRead [''src'', ''a''], OpenWrite [''dst''], FlagRead True,
          WriteChunk [''dst''] 2, Progress_update 100, Sleep (1 / 524288),
          Speed_update 1, FlagWrite False, FlagRead False, FlagRead False,
          Remove [''dst''],
          Status_message ''Operation cancelled. Partial file removed.'']\<rparr>"
  let ?T0 = "\<lparr>fs = two_files, is_running = False, polls = 1, clock = 0,
       log = [MutexLock, FlagWrite False, MutexUnlock, MutexLock, FlagRead False, MutexUnlock]\<rparr>"
  let ?L1 = "[MutexLock, FlagRead True, MutexUnlock, MakeDirs [''dst''],
          Operation_progress 0 ''a'' ''Copying...'',
          Copy2 [''src'', ''a''] [''dst'', ''a''],
          Operation_progress 0 ''a'' ''Verifying MD5...'',
          Md5 [''src'', ''a''] ''d1'', Md5 [''dst'', ''a''] ''d1'',
          Operation_progress 0 ''a'' ''Deleting Source...'',
          Remove [''src'', ''a''], Overall_progress 50, MutexLock,
          FlagWrite False, MutexUnlock, MutexLock, FlagRead False,
          MutexUnlock]"
  let ?T1 = "\<lparr>fs = Dir [(''src'', Dir [(''b'', File ''yo'')]), (''dst'', Dir [(''a'', File ''hi'')])],
       is_running = False, polls = 2, clock = 0, log = ?L1\<rparr>"
  have A: "execute_file_operation (quiet\<lparr>stop_at := Some 1\<rparr>) ?w (boot one_file) = (None, ?S)"
    apply (simp add: fw_eval)
    apply code_simp
    done
  have B: "\<not> is_running (requester (quiet\<lparr>stop_at := Some 0\<rparr>) (boot two_files))"
    by (simp add: requester_def stop_def emit_def quiet_def boot_def)
  have C: "process_files checksum8 (quiet\<lparr>stop_at := Some 1\<rparr>) 0 [''src''] [''dst'']
        ''verify_and_delete'' 2 0 [[''src'', ''a''], [''src'', ''b'']] (boot two_files) = (Return, ?T1)"
    by (simp add: batch_eval digest_eval)
  note inst1 = cancellation_removes_partial_or_stops_between_files
     [where ev = "quiet\<lparr>stop_at := Some 1\<rparr>" and w = ?w and s = "boot one_file" and s' = ?S
        and hs = checksum8 and ti = 0 and sd = "[''src'']" and dd = "[''dst'']"
        and mode = "''verify_and_delete''" and tot = 2 and idx = 0
        and files = "[[''src'', ''a''], [''src'', ''b'']]" and t = "boot two_files"
        and fl = Return and t' = ?T1]
  note inst0 = cancellation_removes_partial_or_stops_between_files
     [where ev = "quiet\<lparr>stop_at := Some 0\<rparr>" and t = "boot two_files"
        and hs = checksum8 and ti = 0 and sd = "[''src'']" and dd = "[''dst'']"
        and mode = "''verify_and_delete''" and tot = 2 and idx = 0
        and f = "[''src'', ''a'']" and rest = "[[''src'', ''b'']]"]
  from inst1 A have a: "lookup (Dir [(''src'', Dir [(''a'', File ''hi'')])]) [''dst''] = None" by simp
  from inst0 B have b: "process_files checksum8 (quiet\<lparr>stop_at := Some 0\<rparr>) 0 [''src''] [''dst'']
        ''verify_and_delete'' 2 0 [[''src'', ''a''], [''src'', ''b'']] (boot two_files) = (Return, ?T0)"
    by (simp add: requester_def stop_def emit_def quiet_def boot_def)
  from inst1 C have "\<exists>xs. log ?T1 = log (boot two_files) @ xs \<and> copies_verified xs" by simp
  then have c: "copies_verified ?L1" by (simp add: boot_def)
  from A a B b C c show ?thesis by simp
qed

end
